theory Spec2Isabelle
  imports Complex_Main "HOL-Library.AList"
begin

section \<open>JavaScript values and the object store\<close>

text \<open>
  The agenda component (\<^verbatim>\<open>src/agenda/index.js\<close>) receives two objects from the
  application, \<^verbatim>\<open>props.items\<close> and \<^verbatim>\<open>props.markedDates\<close>, and builds a third one in
  \<^verbatim>\<open>generateMarkings\<close>. Objects are mutable and shared by reference, so they live in
  a store: an object is the list of its own enumerable properties in insertion order,
  an address is an index into the store, and allocation appends. Arrays and strings are
  only ever read by the component (truthiness, \<^verbatim>\<open>length\<close>, spread), so they are values.
  Numbers are integers: the only numbers the component inspects are lengths.
\<close>

datatype jsval =
    JUndefined
  | JNull
  | JBool bool
  | JNum int
  | JStr string
  | JArr "jsval list"
  | JRef nat

type_synonym jsobj = "(string \<times> jsval) list"
type_synonym heap = "jsobj list"

text \<open>Truthiness, as \<^verbatim>\<open>!x\<close>, \<^verbatim>\<open>x && y\<close> and \<^verbatim>\<open>x || y\<close> test it.\<close>

fun truthy :: "jsval \<Rightarrow> bool" where
  "truthy JUndefined = False"
| "truthy JNull = False"
| "truthy (JBool b) = b"
| "truthy (JNum n) = (n \<noteq> 0)"
| "truthy (JStr s) = (s \<noteq> [])"
| "truthy (JArr xs) = True"
| "truthy (JRef a) = True"

definition alloc :: "heap \<Rightarrow> jsobj \<Rightarrow> heap \<times> nat" where
  "alloc h ob = (h @ [ob], length h)"

text \<open>The properties of the object at an address; an address never allocated holds nothing.\<close>

definition cell :: "heap \<Rightarrow> nat \<Rightarrow> jsobj" where
  "cell h a = (if a < length h then h ! a else [])"

text \<open>
  \<^verbatim>\<open>obj[k] = v\<close> on the object at address \<open>a\<close>: an existing property keeps its place,
  a new one is appended.
\<close>

definition set_prop :: "heap \<Rightarrow> nat \<Rightarrow> string \<Rightarrow> jsval \<Rightarrow> heap" where
  "set_prop h a k v = (if a < length h then h[a := AList.update k v (h ! a)] else h)"

definition lookup :: "jsobj \<Rightarrow> string \<Rightarrow> jsval" where
  "lookup ob k = (case map_of ob k of Some v \<Rightarrow> v | None \<Rightarrow> JUndefined)"

text \<open>Decimal index keys \<^verbatim>\<open>"0"\<close>, \<^verbatim>\<open>"1"\<close>, ... of arrays and strings.\<close>

fun show_nat :: "nat \<Rightarrow> string" where
  "show_nat n =
     (if n < 10 then [''0123456789'' ! n]
      else show_nat (n div 10) @ [''0123456789'' ! (n mod 10)])"

declare show_nat.simps [simp del]

definition indexed :: "jsval list \<Rightarrow> jsobj" where
  "indexed xs = zip (map show_nat [0..<length xs]) xs"

text \<open>
  The own enumerable properties of a value: what \<^verbatim>\<open>Object.keys\<close> lists and what an
  object spread \<^verbatim>\<open>{...v}\<close> copies. The \<^verbatim>\<open>length\<close> of an array or string is not
  enumerable.
\<close>

fun own_props :: "heap \<Rightarrow> jsval \<Rightarrow> jsobj" where
  "own_props h (JRef a) = cell h a"
| "own_props h (JArr xs) = indexed xs"
| "own_props h (JStr s) = indexed (map (\<lambda>c. JStr [c]) s)"
| "own_props h v = []"

definition object_keys :: "heap \<Rightarrow> jsval \<Rightarrow> string list" where
  "object_keys h v = map fst (own_props h v)"

text \<open>
  The property read \<^verbatim>\<open>v[k]\<close>. The component reads properties only of values it has
  just tested truthy, so the \<^verbatim>\<open>TypeError\<close> of a read on \<^verbatim>\<open>undefined\<close> or \<^verbatim>\<open>null\<close>
  is never reached; those two rows are \<open>JUndefined\<close> here.
\<close>

fun get_prop :: "heap \<Rightarrow> jsval \<Rightarrow> string \<Rightarrow> jsval" where
  "get_prop h (JRef a) k = lookup (cell h a) k"
| "get_prop h (JArr xs) k =
     (if k = ''length'' then JNum (int (length xs)) else lookup (indexed xs) k)"
| "get_prop h (JStr s) k =
     (if k = ''length'' then JNum (int (length s))
      else lookup (indexed (map (\<lambda>c. JStr [c]) s)) k)"
| "get_prop h v k = JUndefined"

section \<open>Props, state and effects of the agenda component\<close>

text \<open>
  Dates are \<^verbatim>\<open>XDate\<close> objects of an external library, the type \<open>'x\<close>. What a caller
  passes where a date is expected is nothing, an \<^verbatim>\<open>XDate\<close>, or some other date-like
  value of type \<open>'r\<close> (a date record of the calendar, a string, a timestamp).
  \<^verbatim>\<open>parseDate\<close> (\<^verbatim>\<open>src/interface\<close>) and \<^verbatim>\<open>XDate.toString('yyyy-MM-dd')\<close> are not part
  of the component: they are parameters. \<^verbatim>\<open>parseDate\<close> returns \<^verbatim>\<open>undefined\<close> (\<open>None\<close>)
  or an \<^verbatim>\<open>XDate\<close>.
\<close>

datatype ('x, 'r) dateInput = NoDate | XDateObj 'x | RawDate 'r

record ('x, 'r) lib =
  parseDate :: "('x, 'r) dateInput \<Rightarrow> 'x option"
  toStringYMD :: "'x \<Rightarrow> string"

text \<open>
  The props the component reads. \<^verbatim>\<open>items\<close> and \<^verbatim>\<open>markedDates\<close> are absent (\<open>None\<close>:
  \<^verbatim>\<open>undefined\<close> or \<^verbatim>\<open>null\<close>) or references to objects of the store. A callback prop is
  an opaque function of the application: the model records whether it is provided, and
  every invocation as an effect.
\<close>

record ('x, 'r) props =
  selected :: "('x, 'r) dateInput"
  items :: "nat option"
  markedDates :: "nat option"
  loadItemsForMonth :: bool
  onCalendarToggled :: bool
  onDayPress :: bool

text \<open>The callbacks deferred with \<^verbatim>\<open>setTimeout\<close>, one constructor per closure of the source.\<close>

datatype 'm timer_action =
    SetCalendarReady
  | LoadMonth "'m option"
  | ScrollToSelected
  | NotifyToggled bool

text \<open>
  Calls that leave the component: to the scroll pad and the calendar list through their
  refs, and to the callback props. \<^verbatim>\<open>xdateToData\<close> is external; its result is kept
  symbolic as \<open>DataOf day\<close>. \<open>FirstVisible m\<close> is \<^verbatim>\<open>months[0]\<close>.
\<close>

datatype ('x, 'm) monthArg = DataOf 'x | FirstVisible "'m option"

datatype ('x, 'm) effect =
    ScrollPadTo real bool
  | CalendarScrollToDay 'x real bool
  | LoadItemsForMonth "('x, 'm) monthArg"
  | OnDayPress 'x
  | OnCalendarToggled bool
  | ForceUpdate

datatype error = TypeError

text \<open>
  The component instance: \<^verbatim>\<open>this.props\<close>, \<^verbatim>\<open>this.state\<close>, the instance fields, and the
  part of the host's event loop the component drives: a clock in milliseconds, the
  pending timers (identifier, due time, action), the next timer identifier, and the
  effects emitted so far. \<^verbatim>\<open>setState\<close> is applied at once. The instance fields
  \<^verbatim>\<open>scrollPad\<close> and \<^verbatim>\<open>calendar\<close> are refs: \<open>scrollPadRef\<close> and \<open>calendarRef\<close> say
  whether they hold a component. A call through a ref that holds none raises a
  \<^verbatim>\<open>TypeError\<close>.
\<close>

record ('x, 'r, 'm) comp =
  props :: "('x, 'r) props"
  calendarIsReady :: bool
  calendarScrollable :: bool
  firstResevationLoad :: bool
  selectedDay :: 'x
  topDay :: 'x
  viewHeight :: real
  viewWidth :: real
  scrollTimeout :: "nat option"
  isMounted :: bool
  scrollPadRef :: bool
  calendarRef :: bool
  now :: nat
  timers :: "(nat \<times> nat \<times> 'm timer_action) list"
  nextTimer :: nat
  effects :: "('x, 'm) effect list"

definition HEADER_HEIGHT :: real where
  "HEADER_HEIGHT = 94"

definition KNOB_HEIGHT :: real where
  "KNOB_HEIGHT = 24"

definition emit :: "('x, 'm) effect \<Rightarrow> ('x, 'r, 'm) comp \<Rightarrow> ('x, 'r, 'm) comp" where
  "emit e c = c\<lparr>effects := effects c @ [e]\<rparr>"

definition setTimeout ::
  "'m timer_action \<Rightarrow> nat \<Rightarrow> ('x, 'r, 'm) comp \<Rightarrow> nat \<times> ('x, 'r, 'm) comp" where
  "setTimeout a delay c =
     (nextTimer c,
      c\<lparr>timers := timers c @ [(nextTimer c, now c + delay, a)],
        nextTimer := Suc (nextTimer c)\<rparr>)"

definition clearTimeout :: "nat option \<Rightarrow> ('x, 'r, 'm) comp \<Rightarrow> ('x, 'r, 'm) comp" where
  "clearTimeout t c =
     (case t of
        None \<Rightarrow> c
      | Some i \<Rightarrow> c\<lparr>timers := filter (\<lambda>p. fst p \<noteq> i) (timers c)\<rparr>)"

text \<open>
  The constructor. \<^verbatim>\<open>XDate(true)\<close> reads the clock; it is evaluated once for
  \<^verbatim>\<open>selectedDay\<close> and once for \<^verbatim>\<open>topDay\<close>, each time only when \<^verbatim>\<open>parseDate\<close> returned
  nothing. \<open>todaySel\<close> and \<open>todayTop\<close> are what the two evaluations return. The
  refs are not set yet.
\<close>

definition constructor ::
  "('x, 'r) lib \<Rightarrow> ('x, 'r) props \<Rightarrow> real \<Rightarrow> real \<Rightarrow> 'x \<Rightarrow> 'x \<Rightarrow> ('x, 'r, 'm) comp" where
  "constructor L p windowHeight windowWidth todaySel todayTop =
     \<lparr>props = p,
      calendarIsReady = False,
      calendarScrollable = False,
      firstResevationLoad = False,
      selectedDay = (case parseDate L (selected p) of Some d \<Rightarrow> d | None \<Rightarrow> todaySel),
      topDay = (case parseDate L (selected p) of Some d \<Rightarrow> d | None \<Rightarrow> todayTop),
      viewHeight = windowHeight,
      viewWidth = windowWidth,
      scrollTimeout = None,
      isMounted = False,
      scrollPadRef = False,
      calendarRef = False,
      now = 0,
      timers = [],
      nextTimer = 0,
      effects = []\<rparr>"

definition calendarOffset :: "('x, 'r, 'm) comp \<Rightarrow> real" where
  "calendarOffset c = 90 - viewHeight c / 2"

definition initialScrollPadPosition :: "('x, 'r, 'm) comp \<Rightarrow> real" where
  "initialScrollPadPosition c = max 0 (viewHeight c - HEADER_HEIGHT)"

text \<open>
  The ref callbacks that \<^verbatim>\<open>render\<close> passes, \<^verbatim>\<open>c => this.scrollPad = c\<close> and
  \<^verbatim>\<open>(c) => this.calendar = c\<close>: the host calls them with the component it rendered, and
  with \<^verbatim>\<open>null\<close> when it takes the component away.
\<close>

definition setScrollPadRef :: "bool \<Rightarrow> ('x, 'r, 'm) comp \<Rightarrow> ('x, 'r, 'm) comp" where
  "setScrollPadRef attached c = c\<lparr>scrollPadRef := attached\<rparr>"

definition setCalendarRef :: "bool \<Rightarrow> ('x, 'r, 'm) comp \<Rightarrow> ('x, 'r, 'm) comp" where
  "setCalendarRef attached c = c\<lparr>calendarRef := attached\<rparr>"

text \<open>
  \<^verbatim>\<open>this.scrollPad._component.scrollTo(...)\<close>: a \<^verbatim>\<open>TypeError\<close> when \<^verbatim>\<open>scrollPad\<close> holds
  no component.
\<close>

definition setScrollPadPosition ::
  "real \<Rightarrow> bool \<Rightarrow> ('x, 'r, 'm) comp \<Rightarrow> error option \<times> ('x, 'r, 'm) comp" where
  "setScrollPadPosition y animated c =
     (if scrollPadRef c then (None, emit (ScrollPadTo y animated) c) else (Some TypeError, c))"

definition onScrollPadLayout :: "('x, 'r, 'm) comp \<Rightarrow> error option \<times> ('x, 'r, 'm) comp" where
  "onScrollPadLayout c =
     (case setScrollPadPosition (initialScrollPadPosition c) False c of
        (Some e, c1) \<Rightarrow> (Some e, c1)
      | (None, c1) \<Rightarrow> (None, snd (setTimeout SetCalendarReady 0 c1)))"

text \<open>
  The \<^verbatim>\<open>onLayout\<close> handler that \<^verbatim>\<open>render\<close> gives the calendar list:
  \<^verbatim>\<open>this.calendar.scrollToDay(this.state.selectedDay.clone(), this.calendarOffset(), false)\<close>.
\<close>

definition onCalendarLayout :: "('x, 'r, 'm) comp \<Rightarrow> error option \<times> ('x, 'r, 'm) comp" where
  "onCalendarLayout c =
     (if calendarRef c
      then (None, emit (CalendarScrollToDay (selectedDay c) (calendarOffset c) False) c)
      else (Some TypeError, c))"

definition onLayout :: "real \<Rightarrow> real \<Rightarrow> ('x, 'r, 'm) comp \<Rightarrow> ('x, 'r, 'm) comp" where
  "onLayout height width c = emit ForceUpdate (c\<lparr>viewHeight := height, viewWidth := width\<rparr>)"

definition onVisibleMonthsChange :: "'m list \<Rightarrow> ('x, 'r, 'm) comp \<Rightarrow> ('x, 'r, 'm) comp" where
  "onVisibleMonthsChange months c =
     (if items (props c) \<noteq> None \<and> \<not> firstResevationLoad c then
        (let c1 = clearTimeout (scrollTimeout c) c;
             (t, c2) = setTimeout (LoadMonth (case months of [] \<Rightarrow> None | m # _ \<Rightarrow> Some m)) 200 c1
         in c2\<lparr>scrollTimeout := Some t\<rparr>)
      else c)"

definition loadReservations ::
  "heap \<Rightarrow> ('x, 'r) props \<Rightarrow> ('x, 'r, 'm) comp \<Rightarrow> ('x, 'r, 'm) comp" where
  "loadReservations h p c =
     (if (case items p of None \<Rightarrow> True | Some a \<Rightarrow> object_keys h (JRef a) = [])
         \<and> \<not> firstResevationLoad c then
        (let c1 = c\<lparr>firstResevationLoad := True\<rparr>
         in if loadItemsForMonth (props c1)
            then emit (LoadItemsForMonth (DataOf (selectedDay c1))) c1
            else c1)
      else c)"

definition componentWillMount :: "heap \<Rightarrow> ('x, 'r, 'm) comp \<Rightarrow> ('x, 'r, 'm) comp" where
  "componentWillMount h c = (let c1 = c\<lparr>isMounted := True\<rparr> in loadReservations h (props c1) c1)"

definition componentWillUnmount :: "('x, 'r, 'm) comp \<Rightarrow> ('x, 'r, 'm) comp" where
  "componentWillUnmount c = c\<lparr>isMounted := False\<rparr>"

definition componentDidUpdate ::
  "heap \<Rightarrow> ('x, 'r) props \<Rightarrow> ('x, 'r, 'm) comp \<Rightarrow> ('x, 'r, 'm) comp" where
  "componentDidUpdate h prevProps c =
     (if items prevProps \<noteq> items (props c) then c\<lparr>firstResevationLoad := False\<rparr>
      else loadReservations h (props c) c)"

definition enableCalendarScrolling :: "('x, 'r, 'm) comp \<Rightarrow> ('x, 'r, 'm) comp" where
  "enableCalendarScrolling c =
     snd (setTimeout ScrollToSelected 500 (c\<lparr>calendarScrollable := True\<rparr>))"

definition expandCalendar :: "('x, 'r, 'm) comp \<Rightarrow> error option \<times> ('x, 'r, 'm) comp" where
  "expandCalendar c = setScrollPadPosition 0 True (enableCalendarScrolling c)"

text \<open>
  \<^verbatim>\<open>chooseDay\<close>. When \<^verbatim>\<open>parseDate\<close> returns nothing, \<^verbatim>\<open>day.clone()\<close> raises a
  \<^verbatim>\<open>TypeError\<close>: the timer of the first statement is already scheduled, nothing else
  has happened. When the scroll pad ref holds no component, \<^verbatim>\<open>setScrollPadPosition\<close>
  raises: the state is already set, no callback has been called.
\<close>

definition chooseDay ::
  "('x, 'r) lib \<Rightarrow> ('x, 'r) dateInput \<Rightarrow> ('x, 'r, 'm) comp \<Rightarrow> error option \<times> ('x, 'r, 'm) comp" where
  "chooseDay L d c =
     (let day = parseDate L d;
          c1 = (if calendarScrollable c then snd (setTimeout (NotifyToggled False) 1000 c) else c)
      in case day of
           None \<Rightarrow> (Some TypeError, c1)
         | Some dy \<Rightarrow>
             (let c2 = c1\<lparr>calendarScrollable := False, selectedDay := dy\<rparr>
              in case setScrollPadPosition (initialScrollPadPosition c2) False c2 of
                   (Some e, c3) \<Rightarrow> (Some e, c3)
                 | (None, c3) \<Rightarrow>
                     (let c4 = (if loadItemsForMonth (props c3)
                                then emit (LoadItemsForMonth (DataOf dy)) c3 else c3);
                          c5 = (if onDayPress (props c4) then emit (OnDayPress dy) c4 else c4)
                      in (None, c5))))"

definition compactCalendar ::
  "('x, 'r) lib \<Rightarrow> ('x, 'r, 'm) comp \<Rightarrow> error option \<times> ('x, 'r, 'm) comp" where
  "compactCalendar L c = chooseDay L (XDateObj (selectedDay c)) c"

text \<open>
  The bodies of the deferred callbacks, run by the event loop when a timer fires. The
  outer callback of \<^verbatim>\<open>enableCalendarScrolling\<close> calls \<^verbatim>\<open>this.calendar.scrollToDay\<close> with no
  guard: when \<^verbatim>\<open>calendar\<close> holds no component it raises, and the inner timer is never
  scheduled.
\<close>

fun run_action ::
  "'m timer_action \<Rightarrow> ('x, 'r, 'm) comp \<Rightarrow> error option \<times> ('x, 'r, 'm) comp" where
  "run_action SetCalendarReady c = (None, c\<lparr>calendarIsReady := True\<rparr>)"
| "run_action (LoadMonth m) c =
     (None, if loadItemsForMonth (props c) \<and> isMounted c
            then emit (LoadItemsForMonth (FirstVisible m)) c else c)"
| "run_action ScrollToSelected c =
     (if calendarRef c
      then (None, snd (setTimeout (NotifyToggled True) 500
                         (emit (CalendarScrollToDay (selectedDay c) 0 False) c)))
      else (Some TypeError, c))"
| "run_action (NotifyToggled b) c =
     (None, if onCalendarToggled (props c) then emit (OnCalendarToggled b) c else c)"

text \<open>
  The event loop: time passes, and a pending timer whose due time has come fires; it
  leaves the pending list and its callback runs.
\<close>

definition advance :: "nat \<Rightarrow> ('x, 'r, 'm) comp \<Rightarrow> ('x, 'r, 'm) comp" where
  "advance dt c = c\<lparr>now := now c + dt\<rparr>"

definition fire :: "nat \<Rightarrow> ('x, 'r, 'm) comp \<Rightarrow> error option \<times> ('x, 'r, 'm) comp" where
  "fire i c =
     (case find (\<lambda>p. fst p = i) (timers c) of
        None \<Rightarrow> (None, c)
      | Some (_, due, a) \<Rightarrow>
          (if due \<le> now c
           then run_action a (c\<lparr>timers := filter (\<lambda>p. fst p \<noteq> i) (timers c)\<rparr>)
           else (None, c)))"

section \<open>Markings of the calendar grid\<close>

text \<open>
  The loop of \<^verbatim>\<open>generateMarkings\<close> over \<^verbatim>\<open>Object.keys(items)\<close>: \<open>it\<close> is the address of
  \<^verbatim>\<open>props.items\<close>, \<open>m\<close> the address of the local \<^verbatim>\<open>markings\<close>.
\<close>

fun mark_keys :: "heap \<Rightarrow> nat \<Rightarrow> nat \<Rightarrow> string list \<Rightarrow> heap" where
  "mark_keys h it m [] = h"
| "mark_keys h it m (k # ks) =
     (let v = get_prop h (JRef it) k in
      if truthy v \<and> truthy (get_prop h v ''length'') then
        (let (h1, a) = alloc h [(''marked'', JBool True)]
         in mark_keys (set_prop h1 m k (JRef a)) it m ks)
      else mark_keys h it m ks)"

text \<open>
  The first half of \<^verbatim>\<open>generateMarkings\<close>: the local \<^verbatim>\<open>markings\<close> after the
  \<^verbatim>\<open>if (!markings)\<close> block, as the store and the address \<^verbatim>\<open>markings\<close> refers to.
  It is \<^verbatim>\<open>props.markedDates\<close> itself when that is provided, and otherwise a new
  object filled by the loop.
\<close>

definition markings_of :: "heap \<Rightarrow> ('x, 'r) props \<Rightarrow> heap \<times> nat" where
  "markings_of h p =
     (case markedDates p of
        Some md \<Rightarrow> (h, md)
      | None \<Rightarrow>
          (let (h0, m0) = alloc h []
           in case items p of
                None \<Rightarrow> (h0, m0)
              | Some it \<Rightarrow> (mark_keys h0 it m0 (object_keys h0 (JRef it)), m0)))"

text \<open>
  The entry of the selected day, \<^verbatim>\<open>{...(markings[key] || {}), ...{selected: true}}\<close>:
  the fields \<^verbatim>\<open>markings[key]\<close> has, with \<^verbatim>\<open>selected\<close> set to \<^verbatim>\<open>true\<close>.
\<close>

definition selected_entry :: "heap \<Rightarrow> nat \<Rightarrow> string \<Rightarrow> jsobj" where
  "selected_entry h1 m key =
     AList.update ''selected'' (JBool True)
       (if truthy (get_prop h1 (JRef m) key) then own_props h1 (get_prop h1 (JRef m) key) else [])"

text \<open>
  \<^verbatim>\<open>generateMarkings\<close> returns the store and the address of the object it built.
  Temporaries that nothing references afterwards (the \<^verbatim>\<open>{}\<close> of \<^verbatim>\<open>items || {}\<close> and of
  \<^verbatim>\<open>markings[key] || {}\<close>, the literal \<^verbatim>\<open>{selected: true}\<close>) are not allocated.
\<close>

definition generateMarkings ::
  "('x, 'r) lib \<Rightarrow> heap \<Rightarrow> ('x, 'r, 'm) comp \<Rightarrow> heap \<times> nat" where
  "generateMarkings L h c =
     (let (h1, m) = markings_of h (props c);
          key = toStringYMD L (selectedDay c);
          (h2, e) = alloc h1 (selected_entry h1 m key)
      in alloc h2 (AList.update key (JRef e) (own_props h1 (JRef m))))"

text \<open>
  Reading the result \<open>res\<close> of \<^verbatim>\<open>generateMarkings\<close>: the entry \<^verbatim>\<open>res[k]\<close> of a date
  key, the fields of that entry, and one field \<^verbatim>\<open>res[k][f]\<close> of it (\<open>JUndefined\<close>
  where there is no entry).
\<close>

definition marking_entry :: "heap \<times> nat \<Rightarrow> string \<Rightarrow> jsval" where
  "marking_entry res k = get_prop (fst res) (JRef (snd res)) k"

definition entry_props :: "heap \<times> nat \<Rightarrow> string \<Rightarrow> jsobj" where
  "entry_props res k = own_props (fst res) (marking_entry res k)"

definition entry_field :: "heap \<times> nat \<Rightarrow> string \<Rightarrow> string \<Rightarrow> jsval" where
  "entry_field res k f = get_prop (fst res) (marking_entry res k) f"

section \<open>Values computed by render\<close>

text \<open>
  Modelled from the spec: \<^verbatim>\<open>Animated.Value.interpolate\<close> with two-point ranges and
  \<^verbatim>\<open>extrapolate: 'clamp'\<close> belongs to the host framework and is not in the repository.
  It is the clamped linear interpolation the spec names: the input is clamped to the
  input range and mapped linearly onto the output range; an empty input range maps to
  the lower output below or at it and to the upper output above it.
\<close>

definition interpolate_clamp :: "real \<Rightarrow> real \<Rightarrow> real \<Rightarrow> real \<Rightarrow> real \<Rightarrow> real" where
  "interpolate_clamp inMin inMax outMin outMax y =
     (if outMin = outMax then outMin
      else if inMin = inMax then (if y \<le> inMin then outMin else outMax)
      else outMin + (min inMax (max inMin y) - inMin) / (inMax - inMin) * (outMax - outMin))"

definition agendaHeight :: "('x, 'r, 'm) comp \<Rightarrow> real" where
  "agendaHeight c = max 0 (viewHeight c - HEADER_HEIGHT)"

text \<open>The input ranges of the interpolations of \<^verbatim>\<open>render\<close>, as (lower, upper).\<close>

definition weekdaysOpacityRange :: "('x, 'r, 'm) comp \<Rightarrow> real \<times> real" where
  "weekdaysOpacityRange c = (agendaHeight c - HEADER_HEIGHT, agendaHeight c)"

definition weekdaysTranslateRange :: "('x, 'r, 'm) comp \<Rightarrow> real \<times> real" where
  "weekdaysTranslateRange c = (max 0 (agendaHeight c - HEADER_HEIGHT), agendaHeight c)"

definition headerTranslateRange :: "('x, 'r, 'm) comp \<Rightarrow> real \<times> real" where
  "headerTranslateRange c = (0, agendaHeight c)"

definition contentTranslateRange :: "('x, 'r, 'm) comp \<Rightarrow> real \<times> real" where
  "contentTranslateRange c = (0, agendaHeight c)"

definition weekdaysOpacity :: "('x, 'r, 'm) comp \<Rightarrow> real \<Rightarrow> real" where
  "weekdaysOpacity c y =
     interpolate_clamp (fst (weekdaysOpacityRange c)) (snd (weekdaysOpacityRange c)) 0 1 y"

definition weekdaysTranslateY :: "('x, 'r, 'm) comp \<Rightarrow> real \<Rightarrow> real" where
  "weekdaysTranslateY c y =
     interpolate_clamp (fst (weekdaysTranslateRange c)) (snd (weekdaysTranslateRange c))
       (- HEADER_HEIGHT) 0 y"

definition headerTranslate :: "('x, 'r, 'm) comp \<Rightarrow> real \<Rightarrow> real" where
  "headerTranslate c y =
     interpolate_clamp (fst (headerTranslateRange c)) (snd (headerTranslateRange c))
       (agendaHeight c) 0 y"

definition contentTranslate :: "('x, 'r, 'm) comp \<Rightarrow> real \<Rightarrow> real" where
  "contentTranslate c y =
     interpolate_clamp (fst (contentTranslateRange c)) (snd (contentTranslateRange c))
       0 (agendaHeight c / 2) y"

definition shouldAllowDragging :: "('x, 'r, 'm) comp \<Rightarrow> bool" where
  "shouldAllowDragging c = (\<not> calendarScrollable c)"

definition scrollPadPosition :: "('x, 'r, 'm) comp \<Rightarrow> real" where
  "scrollPadPosition c = (if shouldAllowDragging c then HEADER_HEIGHT else 0)"

section \<open>The component as a transition system\<close>

text \<open>
  What can happen to a component after its construction: the host calls a lifecycle
  method, a layout handler or a ref callback, the application changes the props or calls a public
  method, the calendar list reports a day press or a change of the visible months, time
  passes, a timer fires. An event that carries a store carries the application's store
  at that moment.
\<close>

datatype ('x, 'r, 'm) event =
    WillMount heap
  | WillUnmount
  | PropsChanged heap "('x, 'r) props"
  | DidUpdate heap
  | Layout real real
  | ScrollPadLayout
  | CalendarLayout
  | ScrollPadRef bool
  | CalendarRef bool
  | VisibleMonthsChange "'m list"
  | ExpandCalendar
  | CompactCalendar
  | EnableCalendarScrolling
  | ChooseDay "('x, 'r) dateInput"
  | TimerFires nat
  | TimePasses nat

fun apply_event ::
  "('x, 'r) lib \<Rightarrow> ('x, 'r, 'm) event \<Rightarrow> ('x, 'r, 'm) comp \<Rightarrow> ('x, 'r, 'm) comp" where
  "apply_event L (WillMount h) c = componentWillMount h c"
| "apply_event L WillUnmount c = componentWillUnmount c"
| "apply_event L (PropsChanged h p) c = componentDidUpdate h (props c) (c\<lparr>props := p\<rparr>)"
| "apply_event L (DidUpdate h) c = componentDidUpdate h (props c) c"
| "apply_event L (Layout height width) c = onLayout height width c"
| "apply_event L ScrollPadLayout c = snd (onScrollPadLayout c)"
| "apply_event L CalendarLayout c = snd (onCalendarLayout c)"
| "apply_event L (ScrollPadRef attached) c = setScrollPadRef attached c"
| "apply_event L (CalendarRef attached) c = setCalendarRef attached c"
| "apply_event L (VisibleMonthsChange months) c = onVisibleMonthsChange months c"
| "apply_event L ExpandCalendar c = snd (expandCalendar c)"
| "apply_event L CompactCalendar c = snd (compactCalendar L c)"
| "apply_event L EnableCalendarScrolling c = enableCalendarScrolling c"
| "apply_event L (ChooseDay d) c = snd (chooseDay L d c)"
| "apply_event L (TimerFires i) c = snd (fire i c)"
| "apply_event L (TimePasses dt) c = advance dt c"

inductive_set reachable :: "('x, 'r) lib \<Rightarrow> ('x, 'r, 'm) comp set"
  for L :: "('x, 'r) lib"
  where
    init: "constructor L p windowHeight windowWidth todaySel todayTop \<in> reachable L"
  | step: "c \<in> reachable L \<Longrightarrow> apply_event L ev c \<in> reachable L"

text \<open>The pending timers that will call \<^verbatim>\<open>loadItemsForMonth(months[0])\<close>.\<close>

fun is_month_load :: "nat \<times> nat \<times> 'm timer_action \<Rightarrow> bool" where
  "is_month_load (i, due, LoadMonth m) = True"
| "is_month_load (i, due, a) = False"

definition pending_month_loads :: "('x, 'r, 'm) comp \<Rightarrow> (nat \<times> nat \<times> 'm timer_action) list" where
  "pending_month_loads c = filter is_month_load (timers c)"

text \<open>The effects that are invocations of a callback prop.\<close>

fun is_callback :: "('x, 'm) effect \<Rightarrow> bool" where
  "is_callback (LoadItemsForMonth a) = True"
| "is_callback (OnDayPress d) = True"
| "is_callback (OnCalendarToggled b) = True"
| "is_callback e = False"

text \<open>
  An items value as the component's documentation describes it: the array of the day's
  items, or nothing for a day not loaded yet.
\<close>

fun is_item_list :: "jsval \<Rightarrow> bool" where
  "is_item_list (JArr xs) = True"
| "is_item_list JUndefined = True"
| "is_item_list JNull = True"
| "is_item_list v = False"

fun nonempty_list :: "jsval \<Rightarrow> bool" where
  "nonempty_list (JArr xs) = (xs \<noteq> [])"
| "nonempty_list v = False"

text \<open>
  The invariant of the loop of \<^verbatim>\<open>generateMarkings\<close>: every property of \<^verbatim>\<open>markings\<close>
  refers to an object \<^verbatim>\<open>{marked: true}\<close> that the loop allocated after \<^verbatim>\<open>markings\<close>.
\<close>

definition is_marker :: "heap \<Rightarrow> nat \<Rightarrow> jsval \<Rightarrow> bool" where
  "is_marker h m v =
     (case v of
        JRef a \<Rightarrow> m < a \<and> a < length h \<and> cell h a = [(''marked'', JBool True)]
      | _ \<Rightarrow> False)"

definition markings_ok :: "heap \<Rightarrow> nat \<Rightarrow> bool" where
  "markings_ok h m =
     (\<forall>k. lookup (cell h m) k = JUndefined \<or> is_marker h m (lookup (cell h m) k))"

text \<open>
  The invariant of the timers: identifiers are below the next identifier and pairwise
  different, a pending month-load timer is the one \<^verbatim>\<open>scrollTimeout\<close> names, and
  \<^verbatim>\<open>scrollTimeout\<close> names an identifier already given out.
\<close>

definition timers_ok :: "('x, 'r, 'm) comp \<Rightarrow> bool" where
  "timers_ok c =
     ((\<forall>t \<in> set (timers c). fst t < nextTimer c)
      \<and> distinct (map fst (timers c))
      \<and> (\<forall>t \<in> set (timers c). is_month_load t \<longrightarrow> scrollTimeout c = Some (fst t))
      \<and> (\<forall>i. scrollTimeout c = Some i \<longrightarrow> i < nextTimer c))"

text \<open>The effects emitted between a state and a later one.\<close>

definition new_effects :: "('x, 'r, 'm) comp \<Rightarrow> ('x, 'r, 'm) comp \<Rightarrow> ('x, 'm) effect list" where
  "new_effects c c' = drop (length (effects c)) (effects c')"

text \<open>
  Runs of the event loop after a call: the first timer of \<^verbatim>\<open>enableCalendarScrolling\<close>
  fired \<open>dt\<close> ms after the call, the timer that one schedules fired \<open>dt2\<close> ms later,
  and the timer of \<^verbatim>\<open>chooseDay\<close> fired \<open>dt\<close> ms after the call.
\<close>

definition after_scroll_timer :: "('x, 'r, 'm) comp \<Rightarrow> nat \<Rightarrow> ('x, 'r, 'm) comp" where
  "after_scroll_timer c dt = snd (fire (nextTimer c) (advance dt (enableCalendarScrolling c)))"

definition after_notify_timer :: "('x, 'r, 'm) comp \<Rightarrow> nat \<Rightarrow> nat \<Rightarrow> ('x, 'r, 'm) comp" where
  "after_notify_timer c dt dt2 =
     snd (fire (Suc (nextTimer c)) (advance dt2 (after_scroll_timer c dt)))"

definition after_choose_timer ::
  "('x, 'r) lib \<Rightarrow> ('x, 'r) dateInput \<Rightarrow> ('x, 'r, 'm) comp \<Rightarrow> nat \<Rightarrow> ('x, 'r, 'm) comp" where
  "after_choose_timer L d c dt = snd (fire (nextTimer c) (advance dt (snd (chooseDay L d c))))"

section \<open>Example data\<close>

text \<open>
  A concrete library, store and component on which the theorems below are evaluated.
  Dates are their own \<^verbatim>\<open>yyyy-MM-dd\<close> strings. The store holds an items object at
  address 0, a \<^verbatim>\<open>markedDates\<close> object at address 1 and the marking it refers to at
  address 2.
\<close>

definition ex_lib :: "(string, string) lib" where
  "ex_lib = \<lparr>parseDate = (\<lambda>d. case d of NoDate \<Rightarrow> None | XDateObj x \<Rightarrow> Some x | RawDate s \<Rightarrow> Some s),
             toStringYMD = (\<lambda>x. x)\<rparr>"

definition ex_heap :: heap where
  "ex_heap =
     [[(''2024-05-01'', JArr [JStr ''standup'']), (''2024-05-02'', JArr []),
       (''2024-05-03'', JUndefined), (''2024-05-04'', JArr [JStr ''review'', JStr ''demo''])],
      [(''2024-05-01'', JRef 2)],
      [(''dotColor'', JStr ''red''), (''selected'', JBool False)]]"

definition ex_props :: "(string, string) props" where
  "ex_props = \<lparr>selected = RawDate ''2024-05-01'', items = Some 0, markedDates = None,
               loadItemsForMonth = False, onCalendarToggled = False, onDayPress = False\<rparr>"

definition ex_comp :: "(string, string, string) comp" where
  "ex_comp = constructor ex_lib ex_props 700 400 ''2024-05-09'' ''2024-05-09''"

text \<open>A library whose dates are time stamps in milliseconds, and props for it.\<close>

definition ex_lib_ms :: "(nat, string) lib" where
  "ex_lib_ms = \<lparr>parseDate = (\<lambda>d. case d of XDateObj x \<Rightarrow> Some x | _ \<Rightarrow> None),
                toStringYMD = (\<lambda>x. ''1970-01-01'')\<rparr>"

definition ex_props_ms :: "(nat, string) props" where
  "ex_props_ms = \<lparr>selected = NoDate, items = None, markedDates = None,
                  loadItemsForMonth = False, onCalendarToggled = False, onDayPress = False\<rparr>"

definition ex_comp_marked :: "(string, string, string) comp" where
  "ex_comp_marked = ex_comp\<lparr>props := ex_props\<lparr>markedDates := Some 1\<rparr>\<rparr>"

text \<open>
  The component mounted and rendered (both refs set), without callbacks and with every
  callback provided; the latter after the calendar list reported its visible months
  once; and each of the two expanded and then taken away by the host, 500 ms after the
  call of \<^verbatim>\<open>enableCalendarScrolling\<close>.
\<close>

definition ex_props_cb :: "(string, string) props" where
  "ex_props_cb = ex_props\<lparr>loadItemsForMonth := True, onCalendarToggled := True, onDayPress := True\<rparr>"

definition ex_comp_cb :: "(string, string, string) comp" where
  "ex_comp_cb = constructor ex_lib ex_props_cb 700 400 ''2024-05-09'' ''2024-05-09''"

definition ex_rendered :: "(string, string, string) comp" where
  "ex_rendered = setCalendarRef True (setScrollPadRef True (componentWillMount ex_heap ex_comp))"

definition ex_rendered_cb :: "(string, string, string) comp" where
  "ex_rendered_cb = setCalendarRef True (setScrollPadRef True (componentWillMount ex_heap ex_comp_cb))"

definition ex_visible :: "(string, string, string) comp" where
  "ex_visible = onVisibleMonthsChange [''2024-05''] ex_rendered_cb"

definition ex_removed :: "(string, string, string) comp" where
  "ex_removed =
     advance 500 (setCalendarRef False (setScrollPadRef False
       (componentWillUnmount (enableCalendarScrolling ex_rendered))))"

definition ex_removed_cb :: "(string, string, string) comp" where
  "ex_removed_cb =
     advance 500 (setCalendarRef False (setScrollPadRef False
       (componentWillUnmount (enableCalendarScrolling ex_rendered_cb))))"

section \<open>The object store\<close>

lemma length_set_prop: "length (set_prop h a k v) = length h"
  by (simp add: set_prop_def)

lemma cell_set_prop:
  "a < length h \<Longrightarrow>
   cell (set_prop h a k v) b = (if b = a then AList.update k v (cell h a) else cell h b)"
  by (simp add: set_prop_def cell_def)

lemma cell_snoc:
  "cell (h @ [ob]) b = (if b < length h then cell h b else if b = length h then ob else [])"
  by (simp add: cell_def nth_append)

lemma take_set_prop: "n \<le> a \<Longrightarrow> take n (set_prop h a k v) = take n h"
  by (simp add: set_prop_def)

lemma lookup_update:
  "lookup (AList.update k v ob) k' = (if k' = k then v else lookup ob k')"
  by (simp add: lookup_def update_conv')

lemma lookup_Nil: "lookup [] k = JUndefined"
  by (simp add: lookup_def)

lemma cell_take: "a < n \<Longrightarrow> take n h' = h \<Longrightarrow> cell h a = cell h' a"
  by (auto simp add: cell_def)

section \<open>generateMarkings\<close>

text \<open>The loop only allocates, and writes only to \<^verbatim>\<open>markings\<close>.\<close>

lemma length_mark_keys: "length h \<le> length (mark_keys h it m ks)"
proof (induction ks arbitrary: h)
  case Nil
  show ?case by simp
next
  case (Cons k ks)
  let ?h2 = "set_prop (h @ [[(''marked'', JBool True)]]) m k (JRef (length h))"
  have "length ?h2 \<le> length (mark_keys ?h2 it m ks)"
    by (rule Cons.IH)
  then have "length h \<le> length (mark_keys ?h2 it m ks)"
    by (simp add: length_set_prop)
  with Cons.IH [of h] show ?case
    by (simp add: alloc_def Let_def)
qed

lemma take_mark_keys:
  "n \<le> m \<Longrightarrow> n \<le> length h \<Longrightarrow> take n (mark_keys h it m ks) = take n h"
proof (induction ks arbitrary: h)
  case Nil
  show ?case by simp
next
  case (Cons k ks)
  let ?h2 = "set_prop (h @ [[(''marked'', JBool True)]]) m k (JRef (length h))"
  have "take n (mark_keys ?h2 it m ks) = take n ?h2"
    using Cons.prems by (intro Cons.IH) (simp_all add: length_set_prop)
  also have "\<dots> = take n h"
    using Cons.prems by (simp add: take_set_prop)
  finally show ?case
    using Cons.IH [of h] Cons.prems by (simp add: alloc_def Let_def)
qed

lemma length_markings_of: "length h \<le> length (fst (markings_of h p))"
proof (cases "markedDates p")
  case (Some md)
  then show ?thesis by (simp add: markings_of_def)
next
  case None
  show ?thesis
  proof (cases "items p")
    case None
    with \<open>markedDates p = None\<close> show ?thesis by (simp add: markings_of_def alloc_def)
  next
    case (Some it)
    have "length (h @ [[]]) \<le>
          length (mark_keys (h @ [[]]) it (length h) (object_keys (h @ [[]]) (JRef it)))"
      by (rule length_mark_keys)
    with Some \<open>markedDates p = None\<close> show ?thesis by (simp add: markings_of_def alloc_def)
  qed
qed

lemma take_markings_of: "take (length h) (fst (markings_of h p)) = h"
  by (simp add: markings_of_def alloc_def Let_def take_mark_keys split: option.split)

text \<open>\<^verbatim>\<open>generateMarkings\<close> in one piece: two allocations on top of \<open>markings_of\<close>.\<close>

lemma generateMarkings_store:
  "generateMarkings L h c =
     (fst (markings_of h (props c)) @
        [selected_entry (fst (markings_of h (props c))) (snd (markings_of h (props c)))
           (toStringYMD L (selectedDay c)),
         AList.update (toStringYMD L (selectedDay c)) (JRef (length (fst (markings_of h (props c)))))
           (cell (fst (markings_of h (props c))) (snd (markings_of h (props c))))],
      Suc (length (fst (markings_of h (props c)))))"
  by (simp add: generateMarkings_def alloc_def Let_def split: prod.split)

text \<open>What the loop leaves in \<^verbatim>\<open>markings\<close>.\<close>

lemma item_test:
  "is_item_list v \<Longrightarrow> (truthy v \<and> truthy (get_prop h v ''length'')) = nonempty_list v"
  by (cases v) simp_all

lemma is_item_list_lookup:
  "\<forall>v \<in> snd ` set ob. is_item_list v \<Longrightarrow> is_item_list (lookup ob k)"
  by (auto simp add: lookup_def split: option.split dest!: map_of_SomeD)

lemma is_marker_step:
  assumes "is_marker h m v" "m < length h"
  shows "is_marker (set_prop (h @ [ob]) m k w) m v"
  using assms
  by (cases v) (simp_all add: is_marker_def length_set_prop cell_set_prop cell_snoc)

lemma is_marker_new:
  assumes "m < length h"
  shows "is_marker (set_prop (h @ [[(''marked'', JBool True)]]) m k w) m (JRef (length h))"
  using assms
  by (simp add: is_marker_def length_set_prop cell_set_prop cell_snoc)

lemma mark_keys_skip:
  "\<not> (truthy (get_prop h (JRef it) k) \<and> truthy (get_prop h (get_prop h (JRef it) k) ''length''))
   \<Longrightarrow> mark_keys h it m (k # ks) = mark_keys h it m ks"
  by (auto simp add: Let_def)

lemma mark_keys_mark:
  "truthy (get_prop h (JRef it) k) \<and> truthy (get_prop h (get_prop h (JRef it) k) ''length'')
   \<Longrightarrow> mark_keys h it m (k # ks) =
       mark_keys (set_prop (h @ [[(''marked'', JBool True)]]) m k (JRef (length h))) it m ks"
  by (simp add: Let_def alloc_def)

lemma mark_keys_markings:
  assumes "it < m" "m < length h" "cell h it = its"
      and "\<forall>v \<in> snd ` set its. is_item_list v"
      and "markings_ok h m"
  shows "markings_ok (mark_keys h it m ks) m \<and>
         (\<forall>k. (lookup (cell (mark_keys h it m ks) m) k \<noteq> JUndefined) =
               ((k \<in> set ks \<and> nonempty_list (lookup its k)) \<or> lookup (cell h m) k \<noteq> JUndefined))"
  using assms
proof (induction ks arbitrary: h)
  case Nil
  then show ?case by simp
next
  case (Cons k ks)
  let ?v = "lookup its k"
  have test: "(truthy (get_prop h (JRef it) k) \<and> truthy (get_prop h (get_prop h (JRef it) k) ''length''))
              = nonempty_list ?v"
    using Cons.prems(3,4) by (simp add: item_test is_item_list_lookup)
  show ?case
  proof (cases "nonempty_list ?v")
    case False
    with test have "mark_keys h it m (k # ks) = mark_keys h it m ks"
      by (intro mark_keys_skip) blast
    with Cons.IH [OF Cons.prems] False show ?thesis
      by auto
  next
    case True
    let ?h2 = "set_prop (h @ [[(''marked'', JBool True)]]) m k (JRef (length h))"
    have unfold: "mark_keys h it m (k # ks) = mark_keys ?h2 it m ks"
      using test True by (intro mark_keys_mark) blast
    have m2: "m < length ?h2"
      using Cons.prems(2) by (simp add: length_set_prop)
    have it2: "cell ?h2 it = its"
      using Cons.prems(1,2,3) by (simp add: cell_set_prop cell_snoc)
    have cm: "cell ?h2 m = AList.update k (JRef (length h)) (cell h m)"
      using Cons.prems(2) by (simp add: cell_set_prop cell_snoc)
    have ok2: "markings_ok ?h2 m"
      unfolding markings_ok_def
    proof
      fix k'
      show "lookup (cell ?h2 m) k' = JUndefined \<or> is_marker ?h2 m (lookup (cell ?h2 m) k')"
      proof (cases "k' = k")
        case True
        then show ?thesis
          using is_marker_new [OF Cons.prems(2)] by (simp add: cm lookup_update)
      next
        case False
        then show ?thesis
          using Cons.prems(5) is_marker_step [OF _ Cons.prems(2)]
          by (auto simp add: cm lookup_update markings_ok_def)
      qed
    qed
    have IH: "markings_ok (mark_keys ?h2 it m ks) m \<and>
         (\<forall>k'. (lookup (cell (mark_keys ?h2 it m ks) m) k' \<noteq> JUndefined) =
               ((k' \<in> set ks \<and> nonempty_list (lookup its k')) \<or> lookup (cell ?h2 m) k' \<noteq> JUndefined))"
      by (rule Cons.IH [OF Cons.prems(1) m2 it2 Cons.prems(4) ok2])
    show ?thesis
      unfolding unfold using IH True
      by (auto simp add: cm lookup_update)
  qed
qed


lemma marking_entry_generateMarkings:
  "marking_entry (generateMarkings L h c) k =
     (if k = toStringYMD L (selectedDay c) then JRef (length (fst (markings_of h (props c))))
      else get_prop (fst (markings_of h (props c))) (JRef (snd (markings_of h (props c)))) k)"
  by (simp add: marking_entry_def generateMarkings_store cell_def nth_append lookup_update)

lemma cell_generateMarkings_old:
  "a < length (fst (markings_of h (props c))) \<Longrightarrow>
   cell (fst (generateMarkings L h c)) a = cell (fst (markings_of h (props c))) a"
  by (simp add: generateMarkings_store cell_def nth_append)

lemma cell_generateMarkings_entry:
  "cell (fst (generateMarkings L h c)) (length (fst (markings_of h (props c)))) =
   selected_entry (fst (markings_of h (props c))) (snd (markings_of h (props c)))
           (toStringYMD L (selectedDay c))"
  by (simp add: generateMarkings_store cell_def nth_append)

lemma entry_props_selected:
  "entry_props (generateMarkings L h c) (toStringYMD L (selectedDay c)) =
   selected_entry (fst (markings_of h (props c))) (snd (markings_of h (props c)))
           (toStringYMD L (selectedDay c))"
  by (simp add: entry_props_def marking_entry_generateMarkings cell_generateMarkings_entry)

lemma markings_of_items:
  assumes "markedDates p = None" "items p = Some it" "it < length h"
      and "\<forall>v \<in> snd ` set (cell h it). is_item_list v"
  shows "snd (markings_of h p) = length h"
    and "markings_ok (fst (markings_of h p)) (length h)"
    and "(lookup (cell (fst (markings_of h p)) (length h)) k \<noteq> JUndefined)
          = nonempty_list (lookup (cell h it) k)"
proof -
  let ?ks = "object_keys (h @ [[]]) (JRef it)"
  have eq: "markings_of h p = (mark_keys (h @ [[]]) it (length h) ?ks, length h)"
    using assms(1,2) by (simp add: markings_of_def alloc_def)
  have ok0: "markings_ok (h @ [[]]) (length h)"
    by (simp add: markings_ok_def cell_snoc lookup_Nil)
  have it0: "cell (h @ [[]]) it = cell h it"
    using assms(3) by (simp add: cell_snoc)
  have main: "markings_ok (mark_keys (h @ [[]]) it (length h) ?ks) (length h) \<and>
         (\<forall>k. (lookup (cell (mark_keys (h @ [[]]) it (length h) ?ks) (length h)) k \<noteq> JUndefined) =
               ((k \<in> set ?ks \<and> nonempty_list (lookup (cell h it) k))
                \<or> lookup (cell (h @ [[]]) (length h)) k \<noteq> JUndefined))"
    by (rule mark_keys_markings [OF assms(3) _ it0 assms(4) ok0]) simp
  have keys: "nonempty_list (lookup (cell h it) k) \<Longrightarrow> k \<in> set ?ks"
    using assms(3)
    by (auto simp add: object_keys_def cell_snoc lookup_def split: option.splits dest: map_of_SomeD)
       (force dest: map_of_SomeD)
  show "snd (markings_of h p) = length h"
    by (simp add: eq)
  show "markings_ok (fst (markings_of h p)) (length h)"
    using main by (simp add: eq)
  show "(lookup (cell (fst (markings_of h p)) (length h)) k \<noteq> JUndefined)
          = nonempty_list (lookup (cell h it) k)"
    using main keys by (auto simp add: eq cell_snoc lookup_Nil)
qed

lemma markings_of_no_items:
  assumes "markedDates p = None" "items p = None"
  shows "markings_of h p = (h @ [[]], length h)"
  using assms by (simp add: markings_of_def alloc_def)


lemma items_marked_field:
  assumes "markedDates (props c) = None" "items (props c) = Some it" "it < length h"
      and "list_all is_item_list (map snd (cell h it))"
  shows "entry_field (generateMarkings L h c) k ''marked'' =
           (if nonempty_list (get_prop h (JRef it) k) then JBool True else JUndefined)"
    and "k \<noteq> toStringYMD L (selectedDay c) \<Longrightarrow>
           (marking_entry (generateMarkings L h c) k = JUndefined) = (\<not> nonempty_list (get_prop h (JRef it) k))"
    and "entry_props (generateMarkings L h c) (toStringYMD L (selectedDay c)) =
           (if nonempty_list (get_prop h (JRef it) (toStringYMD L (selectedDay c)))
            then [(''marked'', JBool True), (''selected'', JBool True)]
            else [(''selected'', JBool True)])"
proof -
  let ?p = "props c"
  let ?h1 = "fst (markings_of h ?p)"
  let ?key = "toStringYMD L (selectedDay c)"
  have typed: "\<forall>v \<in> snd ` set (cell h it). is_item_list v"
    using assms(4) by (auto simp add: list_all_iff)
  have m: "snd (markings_of h ?p) = length h"
    by (rule markings_of_items(1) [OF assms(1,2,3) typed])
  have ok: "markings_ok ?h1 (length h)"
    by (rule markings_of_items(2) [OF assms(1,2,3) typed])
  have dom: "\<And>k. (lookup (cell ?h1 (length h)) k \<noteq> JUndefined) = nonempty_list (lookup (cell h it) k)"
    by (rule markings_of_items(3) [OF assms(1,2,3) typed])
  have mk: "\<And>k. nonempty_list (lookup (cell h it) k) \<Longrightarrow> is_marker ?h1 (length h) (lookup (cell ?h1 (length h)) k)"
    using ok dom unfolding markings_ok_def by blast
  have un: "\<And>k. \<not> nonempty_list (lookup (cell h it) k) \<Longrightarrow> lookup (cell ?h1 (length h)) k = JUndefined"
    using dom by blast
  have sel: "entry_props (generateMarkings L h c) ?key =
           (if nonempty_list (lookup (cell h it) ?key)
            then [(''marked'', JBool True), (''selected'', JBool True)]
            else [(''selected'', JBool True)])"
  proof (cases "nonempty_list (lookup (cell h it) ?key)")
    case True
    from mk [OF True] have mkr: "is_marker ?h1 (length h) (lookup (cell ?h1 (length h)) ?key)" .
    then obtain a where a: "lookup (cell ?h1 (length h)) ?key = JRef a" "cell ?h1 a = [(''marked'', JBool True)]"
      by (auto simp add: is_marker_def split: jsval.splits)
    show ?thesis
      using True a by (simp add: entry_props_selected selected_entry_def m)
  next
    case False
    from un [OF False] show ?thesis
      using False by (simp add: entry_props_selected selected_entry_def m)
  qed
  then show "entry_props (generateMarkings L h c) ?key =
           (if nonempty_list (get_prop h (JRef it) ?key)
            then [(''marked'', JBool True), (''selected'', JBool True)]
            else [(''selected'', JBool True)])"
    by simp
  show "entry_field (generateMarkings L h c) k ''marked'' =
           (if nonempty_list (get_prop h (JRef it) k) then JBool True else JUndefined)"
  proof (cases "k = ?key")
    case True
    have "entry_field (generateMarkings L h c) ?key ''marked'' = lookup (entry_props (generateMarkings L h c) ?key) ''marked''"
      by (simp add: entry_field_def entry_props_def marking_entry_generateMarkings)
    with sel True show ?thesis
      by (simp add: lookup_def)
  next
    case False
    show ?thesis
    proof (cases "nonempty_list (lookup (cell h it) k)")
      case True
      from mk [OF True] obtain a where a: "lookup (cell ?h1 (length h)) k = JRef a" "a < length ?h1"
          "cell ?h1 a = [(''marked'', JBool True)]"
        by (auto simp add: is_marker_def split: jsval.splits)
      show ?thesis
        using True False a
        by (simp add: entry_field_def marking_entry_generateMarkings m cell_generateMarkings_old lookup_def)
    next
      case F2: False
      from un [OF F2] show ?thesis
        using F2 False by (simp add: entry_field_def marking_entry_generateMarkings m)
    qed
  qed
  show "(marking_entry (generateMarkings L h c) k = JUndefined) = (\<not> nonempty_list (get_prop h (JRef it) k))"
    if "k \<noteq> ?key"
    using that dom [of k] by (auto simp add: marking_entry_generateMarkings m)
qed

lemma no_items_marked_field:
  assumes "markedDates (props c) = None" "items (props c) = None"
  shows "entry_field (generateMarkings L h c) k ''marked'' = JUndefined"
    and "k \<noteq> toStringYMD L (selectedDay c) \<Longrightarrow> marking_entry (generateMarkings L h c) k = JUndefined"
    and "entry_props (generateMarkings L h c) (toStringYMD L (selectedDay c)) = [(''selected'', JBool True)]"
proof -
  have eq: "markings_of h (props c) = (h @ [[]], length h)"
    by (rule markings_of_no_items [OF assms])
  show sel: "entry_props (generateMarkings L h c) (toStringYMD L (selectedDay c)) = [(''selected'', JBool True)]"
    by (simp add: entry_props_selected selected_entry_def eq cell_snoc lookup_Nil)
  show "marking_entry (generateMarkings L h c) k = JUndefined" if "k \<noteq> toStringYMD L (selectedDay c)"
    using that by (simp add: marking_entry_generateMarkings eq cell_snoc lookup_Nil)
  show "entry_field (generateMarkings L h c) k ''marked'' = JUndefined"
  proof (cases "k = toStringYMD L (selectedDay c)")
    case True
    have "entry_field (generateMarkings L h c) k ''marked'' = lookup (entry_props (generateMarkings L h c) k) ''marked''"
      using True by (simp add: entry_field_def entry_props_def marking_entry_generateMarkings)
    with sel True show ?thesis by (simp add: lookup_def)
  next
    case False
    then show ?thesis
      by (simp add: entry_field_def marking_entry_generateMarkings eq cell_snoc lookup_Nil)
  qed
qed

lemma selected_entry_fields:
  "lookup (selected_entry h1 m key) f =
     (if f = ''selected'' then JBool True
      else lookup (if truthy (get_prop h1 (JRef m) key) then own_props h1 (get_prop h1 (JRef m) key) else []) f)"
  by (simp add: selected_entry_def lookup_update)

text \<open>
  C7. \<^verbatim>\<open>generateMarkings\<close> does not mutate what it is given: every object that
  existed before the call, among them \<^verbatim>\<open>props.items\<close>, \<^verbatim>\<open>props.markedDates\<close> and
  everything they refer to, has the same properties after it. The object it returns
  and the entry of the selected day in it are new objects, allocated by the call.
\<close>

theorem generateMarkings_leaves_inputs_unchanged:
  "take (length h) (fst (generateMarkings L h c)) = h
   \<and> (\<forall>a. a < length h \<longrightarrow> cell (fst (generateMarkings L h c)) a = cell h a)
   \<and> length h \<le> snd (generateMarkings L h c)
   \<and> snd (generateMarkings L h c) < length (fst (generateMarkings L h c))
   \<and> (\<exists>e. get_prop (fst (generateMarkings L h c)) (JRef (snd (generateMarkings L h c)))
               (toStringYMD L (selectedDay c)) = JRef e
          \<and> length h \<le> e \<and> e < length (fst (generateMarkings L h c)))"
proof -
  let ?h1 = "fst (markings_of h (props c))"
  have len: "length h \<le> length ?h1"
    by (rule length_markings_of)
  have tk: "take (length h) ?h1 = h"
    by (rule take_markings_of)
  have frame: "take (length h) (fst (generateMarkings L h c)) = h"
    using len tk by (simp add: generateMarkings_store)
  have cells: "\<forall>a. a < length h \<longrightarrow> cell (fst (generateMarkings L h c)) a = cell h a"
    using frame cell_take by metis
  have fresh: "length h \<le> snd (generateMarkings L h c)"
    using len by (simp add: generateMarkings_store)
  have alloc: "snd (generateMarkings L h c) < length (fst (generateMarkings L h c))"
    by (simp add: generateMarkings_store)
  have entry: "get_prop (fst (generateMarkings L h c)) (JRef (snd (generateMarkings L h c)))
                 (toStringYMD L (selectedDay c)) = JRef (length ?h1)"
    by (simp add: generateMarkings_store cell_def nth_append lookup_update)
  have "length ?h1 < length (fst (generateMarkings L h c))"
    by (simp add: generateMarkings_store)
  with entry len have "\<exists>e. get_prop (fst (generateMarkings L h c)) (JRef (snd (generateMarkings L h c)))
               (toStringYMD L (selectedDay c)) = JRef e
          \<and> length h \<le> e \<and> e < length (fst (generateMarkings L h c))"
    by blast
  with frame cells fresh alloc show ?thesis by blast
qed

theorem generateMarkings_leaves_inputs_unchanged_witness:
  "(0::nat) < length ex_heap
   \<and> cell (fst (generateMarkings ex_lib ex_heap ex_comp)) 0 = cell ex_heap 0
   \<and> length ex_heap \<le> snd (generateMarkings ex_lib ex_heap ex_comp)"
proof -
  have pos: "(0::nat) < length ex_heap"
    by (simp add: ex_heap_def)
  with generateMarkings_leaves_inputs_unchanged [of ex_heap ex_lib ex_comp]
  show ?thesis by blast
qed

lemma markings_of_markedDates:
  "markedDates p = Some md \<Longrightarrow> markings_of h p = (h, md)"
  by (simp add: markings_of_def)

text \<open>
  C1. Date-keyed marking aggregation. Without the \<^verbatim>\<open>markedDates\<close> prop, and with an
  items object whose values are arrays (or nothing, for days not loaded), the entries of
  the returned object that carry \<^verbatim>\<open>marked: true\<close> are exactly the keys of items whose
  array is non-empty; a key with an empty or missing array has no \<^verbatim>\<open>marked\<close> field, and
  no entry at all unless it is the selected day. Without items nothing is marked. In
  every case the entry of the selected day (\<^verbatim>\<open>selectedDay.toString('yyyy-MM-dd')\<close>)
  has \<^verbatim>\<open>selected: true\<close> and keeps every other field the entry had: without
  \<^verbatim>\<open>markedDates\<close> it is \<^verbatim>\<open>{marked: true, selected: true}\<close> on a day with items and
  \<^verbatim>\<open>{selected: true}\<close> otherwise; with \<^verbatim>\<open>markedDates\<close> it has the fields of
  \<^verbatim>\<open>markedDates[key]\<close>, as the store held them before the call, with \<^verbatim>\<open>selected\<close> set
  to \<^verbatim>\<open>true\<close>.
\<close>

theorem generateMarkings_marks_days_with_items:
  "(markedDates (props c) = None \<longrightarrow> items (props c) = Some it \<longrightarrow> it < length h \<longrightarrow>
      list_all is_item_list (map snd (cell h it)) \<longrightarrow>
        (\<forall>k. (entry_field (generateMarkings L h c) k ''marked'' = JBool True)
               = nonempty_list (get_prop h (JRef it) k))
      \<and> (\<forall>k. \<not> nonempty_list (get_prop h (JRef it) k) \<longrightarrow>
               entry_field (generateMarkings L h c) k ''marked'' = JUndefined)
      \<and> (\<forall>k. k \<noteq> toStringYMD L (selectedDay c) \<longrightarrow>
               (marking_entry (generateMarkings L h c) k = JUndefined)
               = (\<not> nonempty_list (get_prop h (JRef it) k)))
      \<and> entry_props (generateMarkings L h c) (toStringYMD L (selectedDay c)) =
           (if nonempty_list (get_prop h (JRef it) (toStringYMD L (selectedDay c)))
            then [(''marked'', JBool True), (''selected'', JBool True)]
            else [(''selected'', JBool True)]))
   \<and> (markedDates (props c) = None \<longrightarrow> items (props c) = None \<longrightarrow>
        (\<forall>k. entry_field (generateMarkings L h c) k ''marked'' = JUndefined)
      \<and> (\<forall>k. k \<noteq> toStringYMD L (selectedDay c) \<longrightarrow>
               marking_entry (generateMarkings L h c) k = JUndefined)
      \<and> entry_props (generateMarkings L h c) (toStringYMD L (selectedDay c)) =
           [(''selected'', JBool True)])
   \<and> (markedDates (props c) = Some md \<longrightarrow>
        entry_props (generateMarkings L h c) (toStringYMD L (selectedDay c)) =
          AList.update ''selected'' (JBool True)
            (if truthy (get_prop h (JRef md) (toStringYMD L (selectedDay c)))
             then own_props h (get_prop h (JRef md) (toStringYMD L (selectedDay c))) else [])
      \<and> (\<forall>f. f \<noteq> ''selected'' \<longrightarrow>
             entry_field (generateMarkings L h c) (toStringYMD L (selectedDay c)) f =
             lookup (if truthy (get_prop h (JRef md) (toStringYMD L (selectedDay c)))
                     then own_props h (get_prop h (JRef md) (toStringYMD L (selectedDay c)))
                     else []) f))
   \<and> entry_field (generateMarkings L h c) (toStringYMD L (selectedDay c)) ''selected'' = JBool True"
proof -
  have field: "\<And>f. entry_field (generateMarkings L h c) (toStringYMD L (selectedDay c)) f =
        lookup (selected_entry (fst (markings_of h (props c))) (snd (markings_of h (props c)))
          (toStringYMD L (selectedDay c))) f"
    by (simp add: entry_field_def marking_entry_generateMarkings cell_generateMarkings_entry)
  have A: "markedDates (props c) = None \<longrightarrow> items (props c) = Some it \<longrightarrow> it < length h \<longrightarrow>
      list_all is_item_list (map snd (cell h it)) \<longrightarrow>
        (\<forall>k. (entry_field (generateMarkings L h c) k ''marked'' = JBool True)
               = nonempty_list (get_prop h (JRef it) k))
      \<and> (\<forall>k. \<not> nonempty_list (get_prop h (JRef it) k) \<longrightarrow>
               entry_field (generateMarkings L h c) k ''marked'' = JUndefined)
      \<and> (\<forall>k. k \<noteq> toStringYMD L (selectedDay c) \<longrightarrow>
               (marking_entry (generateMarkings L h c) k = JUndefined)
               = (\<not> nonempty_list (get_prop h (JRef it) k)))
      \<and> entry_props (generateMarkings L h c) (toStringYMD L (selectedDay c)) =
           (if nonempty_list (get_prop h (JRef it) (toStringYMD L (selectedDay c)))
            then [(''marked'', JBool True), (''selected'', JBool True)]
            else [(''selected'', JBool True)])"
    by (auto simp add: items_marked_field)
  have B: "markedDates (props c) = None \<longrightarrow> items (props c) = None \<longrightarrow>
        (\<forall>k. entry_field (generateMarkings L h c) k ''marked'' = JUndefined)
      \<and> (\<forall>k. k \<noteq> toStringYMD L (selectedDay c) \<longrightarrow>
               marking_entry (generateMarkings L h c) k = JUndefined)
      \<and> entry_props (generateMarkings L h c) (toStringYMD L (selectedDay c)) =
           [(''selected'', JBool True)]"
    by (auto simp add: no_items_marked_field)
  have C: "markedDates (props c) = Some md \<longrightarrow>
        entry_props (generateMarkings L h c) (toStringYMD L (selectedDay c)) =
          AList.update ''selected'' (JBool True)
            (if truthy (get_prop h (JRef md) (toStringYMD L (selectedDay c)))
             then own_props h (get_prop h (JRef md) (toStringYMD L (selectedDay c))) else [])
      \<and> (\<forall>f. f \<noteq> ''selected'' \<longrightarrow>
             entry_field (generateMarkings L h c) (toStringYMD L (selectedDay c)) f =
             lookup (if truthy (get_prop h (JRef md) (toStringYMD L (selectedDay c)))
                     then own_props h (get_prop h (JRef md) (toStringYMD L (selectedDay c)))
                     else []) f)"
  proof
    assume md: "markedDates (props c) = Some md"
    have mo: "markings_of h (props c) = (h, md)"
      by (rule markings_of_markedDates [OF md])
    have p: "entry_props (generateMarkings L h c) (toStringYMD L (selectedDay c)) =
          AList.update ''selected'' (JBool True)
            (if truthy (get_prop h (JRef md) (toStringYMD L (selectedDay c)))
             then own_props h (get_prop h (JRef md) (toStringYMD L (selectedDay c))) else [])"
      by (simp add: entry_props_selected mo selected_entry_def)
    have f: "\<forall>f. f \<noteq> ''selected'' \<longrightarrow>
             entry_field (generateMarkings L h c) (toStringYMD L (selectedDay c)) f =
             lookup (if truthy (get_prop h (JRef md) (toStringYMD L (selectedDay c)))
                     then own_props h (get_prop h (JRef md) (toStringYMD L (selectedDay c)))
                     else []) f"
      by (simp add: field selected_entry_fields mo)
    from p f show "entry_props (generateMarkings L h c) (toStringYMD L (selectedDay c)) =
          AList.update ''selected'' (JBool True)
            (if truthy (get_prop h (JRef md) (toStringYMD L (selectedDay c)))
             then own_props h (get_prop h (JRef md) (toStringYMD L (selectedDay c))) else [])
      \<and> (\<forall>f. f \<noteq> ''selected'' \<longrightarrow>
             entry_field (generateMarkings L h c) (toStringYMD L (selectedDay c)) f =
             lookup (if truthy (get_prop h (JRef md) (toStringYMD L (selectedDay c)))
                     then own_props h (get_prop h (JRef md) (toStringYMD L (selectedDay c)))
                     else []) f)"
      by (rule conjI)
  qed
  have D: "entry_field (generateMarkings L h c) (toStringYMD L (selectedDay c)) ''selected'' = JBool True"
    by (simp add: field selected_entry_fields)
  from A B C D show ?thesis
    by (intro conjI)
qed

lemma ex_comp_simps:
  "props ex_comp = ex_props" "selectedDay ex_comp = ''2024-05-01''"
  by (simp_all add: ex_comp_def constructor_def ex_lib_def ex_props_def)

lemma ex_comp_marked_simps:
  "markedDates (props ex_comp_marked) = Some 1" "items (props ex_comp_marked) = Some 0"
  "toStringYMD ex_lib (selectedDay ex_comp_marked) = ''2024-05-01''"
  by (simp_all add: ex_comp_marked_def ex_comp_def constructor_def ex_lib_def ex_props_def)

theorem generateMarkings_marks_days_with_items_witness:
  "markedDates (props ex_comp) = None \<and> items (props ex_comp) = Some 0 \<and> 0 < length ex_heap
   \<and> list_all is_item_list (map snd (cell ex_heap 0))
   \<and> entry_field (generateMarkings ex_lib ex_heap ex_comp) ''2024-05-04'' ''marked'' = JBool True
   \<and> entry_field (generateMarkings ex_lib ex_heap ex_comp) ''2024-05-02'' ''marked'' = JUndefined
   \<and> entry_field (generateMarkings ex_lib ex_heap ex_comp) ''2024-05-03'' ''marked'' = JUndefined
   \<and> marking_entry (generateMarkings ex_lib ex_heap ex_comp) ''2024-05-02'' = JUndefined
   \<and> entry_props (generateMarkings ex_lib ex_heap ex_comp) ''2024-05-01'' =
        [(''marked'', JBool True), (''selected'', JBool True)]
   \<and> markedDates (props ex_comp_marked) = Some 1
   \<and> own_props ex_heap (get_prop ex_heap (JRef 1) ''2024-05-01'') =
        [(''dotColor'', JStr ''red''), (''selected'', JBool False)]
   \<and> entry_props (generateMarkings ex_lib ex_heap ex_comp_marked) ''2024-05-01'' =
        [(''dotColor'', JStr ''red''), (''selected'', JBool True)]
   \<and> entry_field (generateMarkings ex_lib ex_heap ex_comp_marked) ''2024-05-01'' ''dotColor'' =
        JStr ''red''
   \<and> entry_field (generateMarkings ex_lib ex_heap ex_comp_marked) ''2024-05-01'' ''selected'' =
        JBool True"
proof -
  have h1: "markedDates (props ex_comp) = None"
    by (simp add: ex_comp_simps ex_props_def)
  have h2: "items (props ex_comp) = Some 0"
    by (simp add: ex_comp_simps ex_props_def)
  have h3: "0 < length ex_heap"
    by (simp add: ex_heap_def)
  have h4: "list_all is_item_list (map snd (cell ex_heap 0))"
    by (simp add: ex_heap_def cell_def)
  have key: "toStringYMD ex_lib (selectedDay ex_comp) = ''2024-05-01''"
    by (simp add: ex_comp_simps ex_lib_def)
  have v4: "nonempty_list (get_prop ex_heap (JRef 0) ''2024-05-04'')"
    by (simp add: ex_heap_def cell_def lookup_def)
  have v2: "\<not> nonempty_list (get_prop ex_heap (JRef 0) ''2024-05-02'')"
    by (simp add: ex_heap_def cell_def lookup_def)
  have v3: "\<not> nonempty_list (get_prop ex_heap (JRef 0) ''2024-05-03'')"
    by (simp add: ex_heap_def cell_def lookup_def)
  have v1: "nonempty_list (get_prop ex_heap (JRef 0) ''2024-05-01'')"
    by (simp add: ex_heap_def cell_def lookup_def)
  have ne: "''2024-05-02'' \<noteq> ''2024-05-01''"
    by simp
  note T = generateMarkings_marks_days_with_items
    [where c = ex_comp and it = 0 and h = ex_heap and L = ex_lib,
     THEN conjunct1, THEN mp, THEN mp, THEN mp, THEN mp, OF h1 h2 h3 h4, unfolded key]
  note all = T [THEN conjunct1, THEN spec]
  note none = T [THEN conjunct2, THEN conjunct1, THEN spec, THEN mp]
  note absent = T [THEN conjunct2, THEN conjunct2, THEN conjunct1, THEN spec, THEN mp]
  note sel = T [THEN conjunct2, THEN conjunct2, THEN conjunct2]
  have a: "entry_field (generateMarkings ex_lib ex_heap ex_comp) ''2024-05-04'' ''marked'' = JBool True"
    using all [of "''2024-05-04''"] v4 by blast
  have b: "entry_field (generateMarkings ex_lib ex_heap ex_comp) ''2024-05-02'' ''marked'' = JUndefined"
    by (rule none [OF v2])
  have c: "entry_field (generateMarkings ex_lib ex_heap ex_comp) ''2024-05-03'' ''marked'' = JUndefined"
    by (rule none [OF v3])
  have d: "marking_entry (generateMarkings ex_lib ex_heap ex_comp) ''2024-05-02'' = JUndefined"
    using absent [OF ne] v2 by blast
  have e: "entry_props (generateMarkings ex_lib ex_heap ex_comp) ''2024-05-01'' =
        [(''marked'', JBool True), (''selected'', JBool True)]"
    using sel v1 by (simp only: if_True)
  have g1: "markedDates (props ex_comp_marked) = Some 1"
    by (simp add: ex_comp_marked_simps)
  have m1: "get_prop ex_heap (JRef 1) ''2024-05-01'' = JRef 2"
    by (simp add: ex_heap_def cell_def lookup_def)
  have c2: "own_props ex_heap (JRef 2) = [(''dotColor'', JStr ''red''), (''selected'', JBool False)]"
    by (simp add: ex_heap_def cell_def)
  have old: "own_props ex_heap (get_prop ex_heap (JRef 1) ''2024-05-01'') =
        [(''dotColor'', JStr ''red''), (''selected'', JBool False)]"
    unfolding m1 by (rule c2)
  note S = generateMarkings_marks_days_with_items
    [where c = ex_comp_marked and md = 1 and h = ex_heap and L = ex_lib,
     THEN conjunct2, THEN conjunct2, THEN conjunct1, THEN mp, OF g1]
  have nsel: "''dotColor'' \<noteq> ''selected''"
    by simp
  have p: "entry_props (generateMarkings ex_lib ex_heap ex_comp_marked) ''2024-05-01'' =
        [(''dotColor'', JStr ''red''), (''selected'', JBool True)]"
    using S [THEN conjunct1] unfolding ex_comp_marked_simps m1 c2 by simp
  have q: "entry_field (generateMarkings ex_lib ex_heap ex_comp_marked) ''2024-05-01'' ''dotColor'' =
        JStr ''red''"
    using S [THEN conjunct2, THEN spec, THEN mp, OF nsel] unfolding ex_comp_marked_simps m1 c2
    by (simp add: lookup_def)
  have r: "entry_field (generateMarkings ex_lib ex_heap ex_comp_marked) ''2024-05-01'' ''selected'' =
        JBool True"
    using generateMarkings_marks_days_with_items
      [where c = ex_comp_marked and h = ex_heap and L = ex_lib,
       THEN conjunct2, THEN conjunct2, THEN conjunct2]
    unfolding ex_comp_marked_simps by simp
  from h1 h2 h3 h4 a b c d e g1 old p q r show ?thesis
    by (intro conjI)
qed

text \<open>
  C9. With the \<^verbatim>\<open>markedDates\<close> prop provided, items play no part: the call allocates
  the entry of the selected day and the result and nothing else, the result has the
  properties of \<^verbatim>\<open>markedDates\<close> with the key of the selected day set to the new entry,
  every other key holds the very value \<^verbatim>\<open>markedDates\<close> holds for it, and the result
  is the same whatever \<^verbatim>\<open>items\<close> is.
\<close>

theorem markedDates_suppress_item_markings:
  "markedDates (props c) = Some md \<longrightarrow>
     generateMarkings L h c =
       (h @ [AList.update ''selected'' (JBool True)
               (if truthy (get_prop h (JRef md) (toStringYMD L (selectedDay c)))
                then own_props h (get_prop h (JRef md) (toStringYMD L (selectedDay c))) else []),
             AList.update (toStringYMD L (selectedDay c)) (JRef (length h)) (cell h md)],
        Suc (length h))
     \<and> (\<forall>k. k \<noteq> toStringYMD L (selectedDay c) \<longrightarrow>
            marking_entry (generateMarkings L h c) k = get_prop h (JRef md) k)
     \<and> (\<forall>k a. k \<noteq> toStringYMD L (selectedDay c) \<longrightarrow> get_prop h (JRef md) k = JRef a \<longrightarrow>
            a < length h \<longrightarrow> entry_props (generateMarkings L h c) k = cell h a)
     \<and> marking_entry (generateMarkings L h c) (toStringYMD L (selectedDay c)) = JRef (length h)
     \<and> entry_props (generateMarkings L h c) (toStringYMD L (selectedDay c)) =
          AList.update ''selected'' (JBool True)
            (if truthy (get_prop h (JRef md) (toStringYMD L (selectedDay c)))
             then own_props h (get_prop h (JRef md) (toStringYMD L (selectedDay c))) else [])
     \<and> (\<forall>its. generateMarkings L h (c\<lparr>props := (props c)\<lparr>items := its\<rparr>\<rparr>) = generateMarkings L h c)"
proof
  assume md: "markedDates (props c) = Some md"
  let ?key = "toStringYMD L (selectedDay c)"
  have mo: "markings_of h (props c) = (h, md)"
    by (rule markings_of_markedDates [OF md])
  have eq: "generateMarkings L h c =
       (h @ [AList.update ''selected'' (JBool True)
               (if truthy (get_prop h (JRef md) ?key) then own_props h (get_prop h (JRef md) ?key) else []),
             AList.update ?key (JRef (length h)) (cell h md)],
        Suc (length h))"
    by (simp add: generateMarkings_store mo selected_entry_def)
  have other: "\<forall>k. k \<noteq> ?key \<longrightarrow> marking_entry (generateMarkings L h c) k = get_prop h (JRef md) k"
    by (simp add: marking_entry_generateMarkings mo)
  have fields: "\<forall>k a. k \<noteq> ?key \<longrightarrow> get_prop h (JRef md) k = JRef a \<longrightarrow>
            a < length h \<longrightarrow> entry_props (generateMarkings L h c) k = cell h a"
    using cell_generateMarkings_old [where h = h and c = c and L = L]
    by (simp add: entry_props_def marking_entry_generateMarkings mo)
  have sel: "marking_entry (generateMarkings L h c) ?key = JRef (length h)"
    by (simp add: marking_entry_generateMarkings mo)
  have selp: "entry_props (generateMarkings L h c) ?key =
          AList.update ''selected'' (JBool True)
            (if truthy (get_prop h (JRef md) ?key) then own_props h (get_prop h (JRef md) ?key) else [])"
    by (simp add: entry_props_selected mo selected_entry_def)
  have indep: "\<forall>its. generateMarkings L h (c\<lparr>props := (props c)\<lparr>items := its\<rparr>\<rparr>) = generateMarkings L h c"
    using md by (simp add: generateMarkings_store markings_of_markedDates)
  from eq other fields sel selp indep
  show "generateMarkings L h c =
       (h @ [AList.update ''selected'' (JBool True)
               (if truthy (get_prop h (JRef md) (toStringYMD L (selectedDay c)))
                then own_props h (get_prop h (JRef md) (toStringYMD L (selectedDay c))) else []),
             AList.update (toStringYMD L (selectedDay c)) (JRef (length h)) (cell h md)],
        Suc (length h))
     \<and> (\<forall>k. k \<noteq> toStringYMD L (selectedDay c) \<longrightarrow>
            marking_entry (generateMarkings L h c) k = get_prop h (JRef md) k)
     \<and> (\<forall>k a. k \<noteq> toStringYMD L (selectedDay c) \<longrightarrow> get_prop h (JRef md) k = JRef a \<longrightarrow>
            a < length h \<longrightarrow> entry_props (generateMarkings L h c) k = cell h a)
     \<and> marking_entry (generateMarkings L h c) (toStringYMD L (selectedDay c)) = JRef (length h)
     \<and> entry_props (generateMarkings L h c) (toStringYMD L (selectedDay c)) =
          AList.update ''selected'' (JBool True)
            (if truthy (get_prop h (JRef md) (toStringYMD L (selectedDay c)))
             then own_props h (get_prop h (JRef md) (toStringYMD L (selectedDay c))) else [])
     \<and> (\<forall>its. generateMarkings L h (c\<lparr>props := (props c)\<lparr>items := its\<rparr>\<rparr>) = generateMarkings L h c)"
    by blast
qed

theorem markedDates_suppress_item_markings_witness:
  "markedDates (props ex_comp_marked) = Some 1
   \<and> items (props ex_comp_marked) = Some 0
   \<and> nonempty_list (get_prop ex_heap (JRef 0) ''2024-05-04'')
   \<and> marking_entry (generateMarkings ex_lib ex_heap ex_comp_marked) ''2024-05-04'' = JUndefined
   \<and> entry_props (generateMarkings ex_lib ex_heap ex_comp_marked) ''2024-05-01'' =
        [(''dotColor'', JStr ''red''), (''selected'', JBool True)]
   \<and> snd (generateMarkings ex_lib ex_heap ex_comp_marked) = 4"
proof -
  have v4: "nonempty_list (get_prop ex_heap (JRef 0) ''2024-05-04'')"
    by (simp add: ex_heap_def cell_def lookup_def)
  have m4: "get_prop ex_heap (JRef 1) ''2024-05-04'' = JUndefined"
    by (simp add: ex_heap_def cell_def lookup_def)
  have m1: "get_prop ex_heap (JRef 1) ''2024-05-01'' = JRef 2"
    by (simp add: ex_heap_def cell_def lookup_def)
  have c2: "own_props ex_heap (JRef 2) = [(''dotColor'', JStr ''red''), (''selected'', JBool False)]"
    by (simp add: ex_heap_def cell_def)
  have len: "length ex_heap = 3"
    by (simp add: ex_heap_def)
  have ne: "''2024-05-04'' \<noteq> ''2024-05-01''"
    by simp
  have hyp: "markedDates (props ex_comp_marked) = Some 1"
    by (simp add: ex_comp_marked_simps)
  note T = markedDates_suppress_item_markings
    [where c = ex_comp_marked and md = 1 and L = ex_lib and h = ex_heap, THEN mp, OF hyp]
  from T have res: "generateMarkings ex_lib ex_heap ex_comp_marked =
       (ex_heap @ [AList.update ''selected'' (JBool True)
               (if truthy (get_prop ex_heap (JRef 1) (toStringYMD ex_lib (selectedDay ex_comp_marked)))
                then own_props ex_heap (get_prop ex_heap (JRef 1) (toStringYMD ex_lib (selectedDay ex_comp_marked))) else []),
             AList.update (toStringYMD ex_lib (selectedDay ex_comp_marked)) (JRef (length ex_heap)) (cell ex_heap 1)],
        Suc (length ex_heap))"
    by blast
  from T have other: "\<forall>k. k \<noteq> toStringYMD ex_lib (selectedDay ex_comp_marked) \<longrightarrow>
            marking_entry (generateMarkings ex_lib ex_heap ex_comp_marked) k = get_prop ex_heap (JRef 1) k"
    by blast
  from T have selp: "entry_props (generateMarkings ex_lib ex_heap ex_comp_marked) (toStringYMD ex_lib (selectedDay ex_comp_marked)) =
          AList.update ''selected'' (JBool True)
            (if truthy (get_prop ex_heap (JRef 1) (toStringYMD ex_lib (selectedDay ex_comp_marked)))
             then own_props ex_heap (get_prop ex_heap (JRef 1) (toStringYMD ex_lib (selectedDay ex_comp_marked))) else [])"
    by blast
  have a: "snd (generateMarkings ex_lib ex_heap ex_comp_marked) = 4"
    by (simp add: res len)
  have b: "marking_entry (generateMarkings ex_lib ex_heap ex_comp_marked) ''2024-05-04'' = JUndefined"
    using other ne m4 by (simp add: ex_comp_marked_simps)
  have c: "entry_props (generateMarkings ex_lib ex_heap ex_comp_marked) ''2024-05-01'' =
        [(''dotColor'', JStr ''red''), (''selected'', JBool True)]"
    using selp unfolding ex_comp_marked_simps m1 c2 by simp
  from hyp v4 a b c show ?thesis
    by (simp add: ex_comp_marked_simps)
qed

section \<open>Heights and interpolations of render\<close>

text \<open>
  C10 (as the code has it). Both derived heights are clamped at zero: whatever the view
  height, \<^verbatim>\<open>initialScrollPadPosition()\<close> and the \<^verbatim>\<open>agendaHeight\<close> of \<^verbatim>\<open>render\<close> are
  \<open>max 0 (viewHeight - 94)\<close> and not negative. So the initial position of the scroll
  pad, both bounds of the input ranges of the header, content and week-day translations,
  and the upper bound of the input range of the week-day opacity are not negative.
\<close>

theorem derived_heights_nonnegative:
  "initialScrollPadPosition c = max 0 (viewHeight c - 94)
   \<and> 0 \<le> initialScrollPadPosition c
   \<and> agendaHeight c = max 0 (viewHeight c - 94)
   \<and> 0 \<le> agendaHeight c
   \<and> 0 \<le> fst (headerTranslateRange c) \<and> 0 \<le> snd (headerTranslateRange c)
   \<and> 0 \<le> fst (contentTranslateRange c) \<and> 0 \<le> snd (contentTranslateRange c)
   \<and> 0 \<le> fst (weekdaysTranslateRange c) \<and> 0 \<le> snd (weekdaysTranslateRange c)
   \<and> 0 \<le> snd (weekdaysOpacityRange c)"
  by (simp add: initialScrollPadPosition_def agendaHeight_def HEADER_HEIGHT_def
        headerTranslateRange_def contentTranslateRange_def weekdaysTranslateRange_def
        weekdaysOpacityRange_def)

text \<open>
  The lower bound of the input range of the week-day opacity is
  \<^verbatim>\<open>agendaHeight - HEADER_HEIGHT\<close>, written without the \<^verbatim>\<open>Math.max(0, ...)\<close> that the
  translation next to it has: in a view 100 units high it is \<open>-88\<close>.
\<close>

theorem opacity_range_negative_counterexample:
  "viewHeight (onLayout 100 400 ex_comp) = 100
   \<and> fst (weekdaysOpacityRange (onLayout 100 400 ex_comp)) = - 88
   \<and> fst (weekdaysOpacityRange (onLayout 100 400 ex_comp)) < 0"
  by (simp add: onLayout_def emit_def weekdaysOpacityRange_def agendaHeight_def HEADER_HEIGHT_def)

text \<open>
  C4. The drag-to-header mapping, for the scroll offset \<open>y\<close> of the pad and
  \<open>agendaHeight = max 0 (viewHeight - 94)\<close>: the header translation is
  \<open>agendaHeight - clamp y 0 agendaHeight\<close>, which never increases with \<open>y\<close>, is
  \<open>agendaHeight\<close> at \<open>0\<close> and \<open>0\<close> at \<open>agendaHeight\<close>; the opacity of the week-day
  row is \<open>(y - (agendaHeight - 94)) / 94\<close> clamped to \<open>[0, 1]\<close>.
\<close>

theorem drag_to_header_mapping:
  "agendaHeight c = max 0 (viewHeight c - 94)
   \<and> headerTranslate c y = agendaHeight c - min (agendaHeight c) (max 0 y)
   \<and> (\<forall>y'. y \<le> y' \<longrightarrow> headerTranslate c y' \<le> headerTranslate c y)
   \<and> headerTranslate c 0 = agendaHeight c
   \<and> headerTranslate c (agendaHeight c) = 0
   \<and> weekdaysOpacity c y = min 1 (max 0 ((y - (agendaHeight c - 94)) / 94))"
proof -
  have a0: "0 \<le> agendaHeight c"
    by (simp add: agendaHeight_def)
  have ht: "\<And>z. headerTranslate c z = agendaHeight c - min (agendaHeight c) (max 0 z)"
  proof -
    fix z
    show "headerTranslate c z = agendaHeight c - min (agendaHeight c) (max 0 z)"
    proof (cases "agendaHeight c = 0")
      case True
      then show ?thesis
        by (simp add: headerTranslate_def headerTranslateRange_def interpolate_clamp_def)
    next
      case False
      with a0 have pos: "0 < agendaHeight c" by simp
      then show ?thesis
        by (simp add: headerTranslate_def headerTranslateRange_def interpolate_clamp_def field_simps)
    qed
  qed
  have mono: "\<forall>y'. y \<le> y' \<longrightarrow> headerTranslate c y' \<le> headerTranslate c y"
    unfolding ht by (auto simp add: min_def max_def)
  have op: "weekdaysOpacity c y = min 1 (max 0 ((y - (agendaHeight c - 94)) / 94))"
    by (auto simp add: weekdaysOpacity_def weekdaysOpacityRange_def interpolate_clamp_def
          HEADER_HEIGHT_def min_def max_def field_simps)
  show ?thesis
    using a0 ht mono op by (simp add: agendaHeight_def HEADER_HEIGHT_def)
qed

theorem drag_to_header_mapping_witness:
  "agendaHeight ex_comp = 606
   \<and> headerTranslate ex_comp 100 = 506
   \<and> (100::real) \<le> 300 \<and> headerTranslate ex_comp 300 \<le> headerTranslate ex_comp 100
   \<and> weekdaysOpacity ex_comp 559 = 1 / 2"
proof -
  have vh: "viewHeight ex_comp = 700"
    by (simp add: ex_comp_def constructor_def)
  note T = drag_to_header_mapping [where c = ex_comp and y = 100]
  have ah: "agendaHeight ex_comp = 606"
    using T [THEN conjunct1] by (simp add: vh)
  have h100: "headerTranslate ex_comp 100 = 506"
    using T [THEN conjunct2, THEN conjunct1] by (simp add: ah)
  have le: "(100::real) \<le> 300"
    by simp
  have mono: "headerTranslate ex_comp 300 \<le> headerTranslate ex_comp 100"
    by (rule T [THEN conjunct2, THEN conjunct2, THEN conjunct1, THEN spec, THEN mp, OF le])
  have op: "weekdaysOpacity ex_comp 559 = 1 / 2"
    using drag_to_header_mapping [where c = ex_comp and y = 559] by (simp add: ah)
  from ah h100 le mono op show ?thesis
    by (intro conjI)
qed

section \<open>Construction\<close>

text \<open>
  C8 (as the code has it). The constructor initialises \<^verbatim>\<open>selectedDay\<close> and \<^verbatim>\<open>topDay\<close>
  with the same expression, evaluated once for each: both are the date \<^verbatim>\<open>parseDate\<close>
  returns for the \<^verbatim>\<open>selected\<close> prop when it returns one; when it returns nothing,
  \<^verbatim>\<open>selectedDay\<close> is what the first evaluation of \<^verbatim>\<open>XDate(true)\<close> returns and \<^verbatim>\<open>topDay\<close>
  what the second returns. So the two fields are equal exactly when \<^verbatim>\<open>parseDate\<close>
  returned a date or the two readings of the clock agree.
\<close>

theorem constructor_selected_and_top_day:
  "(\<forall>d. parseDate L (selected p) = Some d \<longrightarrow>
        selectedDay (constructor L p windowHeight windowWidth todaySel todayTop) = d
      \<and> topDay (constructor L p windowHeight windowWidth todaySel todayTop) = d)
   \<and> (parseDate L (selected p) = None \<longrightarrow>
        selectedDay (constructor L p windowHeight windowWidth todaySel todayTop) = todaySel
      \<and> topDay (constructor L p windowHeight windowWidth todaySel todayTop) = todayTop)
   \<and> (selectedDay (constructor L p windowHeight windowWidth todaySel todayTop)
        = topDay (constructor L p windowHeight windowWidth todaySel todayTop))
       = (parseDate L (selected p) \<noteq> None \<or> todaySel = todayTop)"
  by (cases "parseDate L (selected p)") (simp_all add: constructor_def)

theorem constructor_selected_and_top_day_witness:
  "parseDate ex_lib (selected ex_props) = Some ''2024-05-01''
   \<and> selectedDay (constructor ex_lib ex_props 700 400 ''2024-05-09'' ''2024-05-09'' :: (string, string, string) comp) = ''2024-05-01''
   \<and> topDay (constructor ex_lib ex_props 700 400 ''2024-05-09'' ''2024-05-09'' :: (string, string, string) comp) = ''2024-05-01''
   \<and> parseDate ex_lib (selected (ex_props\<lparr>selected := NoDate\<rparr>)) = None
   \<and> selectedDay (constructor ex_lib (ex_props\<lparr>selected := NoDate\<rparr>) 700 400 ''2024-05-09'' ''2024-05-10'' :: (string, string, string) comp) = ''2024-05-09''
   \<and> topDay (constructor ex_lib (ex_props\<lparr>selected := NoDate\<rparr>) 700 400 ''2024-05-09'' ''2024-05-10'' :: (string, string, string) comp) = ''2024-05-10''"
proof -
  have p1: "parseDate ex_lib (selected ex_props) = Some ''2024-05-01''"
    by (simp add: ex_lib_def ex_props_def)
  have p0: "parseDate ex_lib (selected (ex_props\<lparr>selected := NoDate\<rparr>)) = None"
    by (simp add: ex_lib_def)
  note A = constructor_selected_and_top_day
    [where L = ex_lib and p = ex_props and todaySel = "''2024-05-09''" and todayTop = "''2024-05-09''"
       and windowHeight = 700 and windowWidth = 400,
     THEN conjunct1, THEN spec, THEN mp, OF p1]
  note B = constructor_selected_and_top_day
    [where L = ex_lib and p = "ex_props\<lparr>selected := NoDate\<rparr>" and todaySel = "''2024-05-09''"
       and todayTop = "''2024-05-10''" and windowHeight = 700 and windowWidth = 400,
     THEN conjunct2, THEN conjunct1, THEN mp, OF p0]
  from p1 A p0 B show ?thesis
    by (intro conjI) blast+
qed

text \<open>
  The claim that the two fields always get the same value, today's date unless
  \<^verbatim>\<open>selected\<close> is provided and parseable, fails twice. With \<^verbatim>\<open>selected\<close> omitted and
  dates as millisecond time stamps, two readings of the clock one millisecond apart give
  two different fields. And the fallback is taken only when \<^verbatim>\<open>parseDate\<close> returns
  nothing: a parser that hands a text it cannot read to \<^verbatim>\<open>XDate\<close> returns a date object
  for it, invalid but truthy, and both fields are that object, not today's date.
\<close>

theorem constructor_days_differ_counterexample:
  "parseDate ex_lib_ms (selected (ex_props_ms\<lparr>selected := NoDate\<rparr>)) = None
   \<and> selectedDay (constructor ex_lib_ms (ex_props_ms\<lparr>selected := NoDate\<rparr>) 700 400
                   1715212800000 1715212800001 :: (nat, string, string) comp)
       \<noteq> topDay (constructor ex_lib_ms (ex_props_ms\<lparr>selected := NoDate\<rparr>) 700 400
                   1715212800000 1715212800001 :: (nat, string, string) comp)
   \<and> selectedDay (constructor ex_lib (ex_props\<lparr>selected := RawDate ''Invalid Date''\<rparr>) 700 400
                   ''2024-05-09'' ''2024-05-09'' :: (string, string, string) comp)
       = ''Invalid Date''
   \<and> selectedDay (constructor ex_lib (ex_props\<lparr>selected := RawDate ''Invalid Date''\<rparr>) 700 400
                   ''2024-05-09'' ''2024-05-09'' :: (string, string, string) comp)
       \<noteq> ''2024-05-09''"
  by (simp add: constructor_def ex_lib_ms_def ex_props_ms_def ex_lib_def ex_props_def)

section \<open>Timers, callbacks and the view state\<close>

text \<open>The timer invariant holds in every reachable state.\<close>

lemma distinct_filter_fst: "distinct (map fst ts) \<Longrightarrow> distinct (map fst (filter P ts))"
  by (induction ts) auto

lemma timers_ok_constructor:
  "timers_ok (constructor L p windowHeight windowWidth todaySel todayTop)"
  by (simp add: timers_ok_def constructor_def)

lemma timers_ok_setTimeout:
  assumes "timers_ok c" "\<not> is_month_load (nextTimer c, now c + delay, a)"
  shows "timers_ok (snd (setTimeout a delay c))"
  using assms by (auto simp add: timers_ok_def setTimeout_def less_Suc_eq)

lemma timers_ok_emit: "timers_ok (emit e c) = timers_ok c"
  by (simp add: timers_ok_def emit_def)

lemma timers_ok_remove:
  assumes "timers_ok c"
  shows "timers_ok (c\<lparr>timers := filter (\<lambda>p. fst p \<noteq> i) (timers c)\<rparr>)"
  using assms by (auto simp add: timers_ok_def distinct_filter_fst)

lemma timers_ok_setScrollPadPosition:
  "timers_ok (snd (setScrollPadPosition y animated c)) = timers_ok c"
  by (simp add: setScrollPadPosition_def timers_ok_emit)

lemma timers_ok_run_action:
  assumes "timers_ok c"
  shows "timers_ok (snd (run_action a c))"
proof (cases a)
  case SetCalendarReady
  with assms show ?thesis by (simp add: timers_ok_def)
next
  case (LoadMonth m)
  with assms show ?thesis by (simp add: timers_ok_emit)
next
  case ScrollToSelected
  have "timers_ok (snd (setTimeout (NotifyToggled True) 500 (emit (CalendarScrollToDay (selectedDay c) 0 False) c)))"
    by (rule timers_ok_setTimeout) (simp_all add: timers_ok_emit assms)
  with ScrollToSelected assms show ?thesis by simp
next
  case (NotifyToggled b)
  with assms show ?thesis by (simp add: timers_ok_emit)
qed

lemma timers_ok_fire:
  assumes "timers_ok c"
  shows "timers_ok (snd (fire i c))"
  using assms
  by (auto simp add: fire_def timers_ok_run_action timers_ok_remove split: option.split)

lemma timers_ok_onVisibleMonthsChange:
  assumes "timers_ok c"
  shows "timers_ok (onVisibleMonthsChange months c)"
proof (cases "items (props c) \<noteq> None \<and> \<not> firstResevationLoad c")
  case False
  with assms show ?thesis by (auto simp add: onVisibleMonthsChange_def)
next
  case True
  let ?c1 = "clearTimeout (scrollTimeout c) c"
  have nol: "\<forall>t \<in> set (timers ?c1). \<not> is_month_load t"
    using assms by (cases "scrollTimeout c") (auto simp add: clearTimeout_def timers_ok_def)
  have fresh: "\<forall>t \<in> set (timers ?c1). fst t < nextTimer ?c1"
    using assms by (cases "scrollTimeout c") (auto simp add: clearTimeout_def timers_ok_def)
  have dist: "distinct (map fst (timers ?c1))"
    using assms by (cases "scrollTimeout c") (auto simp add: clearTimeout_def timers_ok_def distinct_filter_fst)
  have eq: "onVisibleMonthsChange months c =
        ?c1\<lparr>timers := timers ?c1 @ [(nextTimer ?c1, now ?c1 + 200,
                                        LoadMonth (case months of [] \<Rightarrow> None | m # _ \<Rightarrow> Some m))],
             nextTimer := Suc (nextTimer ?c1), scrollTimeout := Some (nextTimer ?c1)\<rparr>"
    using True by (simp add: onVisibleMonthsChange_def Let_def setTimeout_def)
  show ?thesis
    unfolding eq timers_ok_def using nol fresh dist
    by (fastforce simp add: less_Suc_eq)
qed

lemma timers_ok_loadReservations:
  "timers_ok (loadReservations h p c) = timers_ok c"
  by (simp add: loadReservations_def Let_def timers_ok_emit) (simp add: timers_ok_def)

lemma timers_ok_chooseDay:
  assumes "timers_ok c"
  shows "timers_ok (snd (chooseDay L d c))"
proof -
  let ?c1 = "if calendarScrollable c then snd (setTimeout (NotifyToggled False) 1000 c) else c"
  have c1: "timers_ok ?c1"
    using assms by (simp add: timers_ok_setTimeout)
  show ?thesis
  proof (cases "parseDate L d")
    case None
    with c1 show ?thesis by (simp add: chooseDay_def Let_def)
  next
    case (Some dy)
    have "timers_ok (?c1\<lparr>calendarScrollable := False, selectedDay := dy\<rparr>)"
      using c1 by (simp add: timers_ok_def)
    with Some show ?thesis
      by (simp add: chooseDay_def Let_def setScrollPadPosition_def timers_ok_emit)
  qed
qed

lemma timers_ok_apply_event:
  assumes "timers_ok c"
  shows "timers_ok (apply_event L ev c)"
proof (cases ev)
  case (WillMount h)
  have "timers_ok (c\<lparr>isMounted := True\<rparr>)" using assms by (simp add: timers_ok_def)
  with WillMount show ?thesis by (simp add: componentWillMount_def Let_def timers_ok_loadReservations)
next
  case WillUnmount
  with assms show ?thesis by (simp add: componentWillUnmount_def timers_ok_def)
next
  case (PropsChanged h p)
  have "timers_ok (c\<lparr>props := p\<rparr>)" using assms by (simp add: timers_ok_def)
  then have "timers_ok (componentDidUpdate h (props c) (c\<lparr>props := p\<rparr>))"
    by (simp add: componentDidUpdate_def timers_ok_loadReservations) (simp add: timers_ok_def)
  with PropsChanged show ?thesis by simp
next
  case (DidUpdate h)
  with assms show ?thesis by (simp add: componentDidUpdate_def timers_ok_loadReservations)
next
  case (Layout height width)
  have "timers_ok (c\<lparr>viewHeight := height, viewWidth := width\<rparr>)" using assms by (simp add: timers_ok_def)
  with Layout show ?thesis by (simp add: onLayout_def timers_ok_emit)
next
  case ScrollPadLayout
  have "timers_ok (snd (setTimeout SetCalendarReady 0 (emit (ScrollPadTo (initialScrollPadPosition c) False) c)))"
    by (rule timers_ok_setTimeout) (simp_all add: timers_ok_emit assms)
  with ScrollPadLayout assms show ?thesis
    by (simp add: onScrollPadLayout_def setScrollPadPosition_def)
next
  case CalendarLayout
  with assms show ?thesis by (simp add: onCalendarLayout_def timers_ok_emit)
next
  case (ScrollPadRef attached)
  with assms show ?thesis by (simp add: setScrollPadRef_def timers_ok_def)
next
  case (CalendarRef attached)
  with assms show ?thesis by (simp add: setCalendarRef_def timers_ok_def)
next
  case (VisibleMonthsChange months)
  with assms show ?thesis by (simp add: timers_ok_onVisibleMonthsChange)
next
  case ExpandCalendar
  have "timers_ok (c\<lparr>calendarScrollable := True\<rparr>)" using assms by (simp add: timers_ok_def)
  then have "timers_ok (snd (setTimeout ScrollToSelected 500 (c\<lparr>calendarScrollable := True\<rparr>)))"
    by (rule timers_ok_setTimeout) simp
  with ExpandCalendar show ?thesis
    by (simp add: expandCalendar_def enableCalendarScrolling_def timers_ok_setScrollPadPosition)
next
  case CompactCalendar
  with assms show ?thesis by (simp add: compactCalendar_def timers_ok_chooseDay)
next
  case EnableCalendarScrolling
  have "timers_ok (c\<lparr>calendarScrollable := True\<rparr>)" using assms by (simp add: timers_ok_def)
  then have "timers_ok (snd (setTimeout ScrollToSelected 500 (c\<lparr>calendarScrollable := True\<rparr>)))"
    by (rule timers_ok_setTimeout) simp
  with EnableCalendarScrolling show ?thesis
    by (simp add: enableCalendarScrolling_def)
next
  case (ChooseDay d)
  with assms show ?thesis by (simp add: timers_ok_chooseDay)
next
  case (TimerFires i)
  with assms show ?thesis by (simp add: timers_ok_fire)
next
  case (TimePasses dt)
  with assms show ?thesis by (simp add: advance_def timers_ok_def)
qed

lemma reachable_timers_ok: "c \<in> reachable L \<Longrightarrow> timers_ok c"
  by (induction rule: reachable.induct) (simp_all add: timers_ok_constructor timers_ok_apply_event)

lemma filter_at_most_one:
  "distinct (map fst ts) \<Longrightarrow> \<forall>t \<in> set ts. P t \<longrightarrow> fst t = i \<Longrightarrow> length (filter P ts) \<le> 1"
proof (induction ts)
  case Nil
  show ?case by simp
next
  case (Cons t ts)
  show ?case
  proof (cases "P t")
    case False
    with Cons show ?thesis by simp
  next
    case True
    with Cons.prems have "fst t = i" by simp
    have "\<not> P u" if "u \<in> set ts" for u
    proof
      assume "P u"
      with Cons.prems(2) that have "fst u = i" by simp
      with \<open>fst t = i\<close> that have "fst t \<in> fst ` set ts" by (metis imageI)
      with Cons.prems(1) show False by simp
    qed
    then have "\<forall>u \<in> set ts. \<not> P u" by blast
    then have "filter P ts = []" by (simp add: filter_empty_conv)
    with True show ?thesis by simp
  qed
qed

lemma timers_ok_at_most_one: "timers_ok c \<Longrightarrow> length (pending_month_loads c) \<le> 1"
proof (cases "scrollTimeout c")
  case None
  assume "timers_ok c"
  with None have "\<forall>t \<in> set (timers c). \<not> is_month_load t"
    by (auto simp add: timers_ok_def)
  then show ?thesis by (simp add: pending_month_loads_def filter_empty_conv)
next
  case (Some i)
  assume "timers_ok c"
  with Some show ?thesis
    unfolding pending_month_loads_def
    by (intro filter_at_most_one [where i = i]) (auto simp add: timers_ok_def)
qed

lemma find_by_id:
  "distinct (map fst ts) \<Longrightarrow> (i, due, a) \<in> set ts \<Longrightarrow> find (\<lambda>p. fst p = i) ts = Some (i, due, a)"
proof (induction ts)
  case Nil
  then show ?case by simp
next
  case (Cons t ts)
  show ?case
  proof (cases "fst t = i")
    case True
    with Cons.prems have "t = (i, due, a)"
      by (auto simp add: image_iff)
    with True show ?thesis by simp
  next
    case False
    with Cons show ?thesis by auto
  qed
qed

lemma fire_pending:
  assumes "distinct (map fst (timers c))" "(i, due, a) \<in> set (timers c)"
  shows "fire i c =
           (if due \<le> now c then run_action a (c\<lparr>timers := filter (\<lambda>p. fst p \<noteq> i) (timers c)\<rparr>)
            else (None, c))"
  using find_by_id [OF assms] by (simp add: fire_def)

lemma clear_no_month_loads:
  assumes "timers_ok c"
  shows "filter is_month_load (timers (clearTimeout (scrollTimeout c) c)) = []"
  using assms
  by (cases "scrollTimeout c") (auto simp add: clearTimeout_def timers_ok_def filter_empty_conv)

lemma onVisibleMonthsChange_schedules:
  assumes "items (props c) \<noteq> None" "\<not> firstResevationLoad c"
  shows "onVisibleMonthsChange months c =
        c\<lparr>timers := timers (clearTimeout (scrollTimeout c) c) @
                       [(nextTimer c, now c + 200,
                         LoadMonth (case months of [] \<Rightarrow> None | m # _ \<Rightarrow> Some m))],
             nextTimer := Suc (nextTimer c), scrollTimeout := Some (nextTimer c)\<rparr>"
  using assms
  by (cases "scrollTimeout c") (simp_all add: onVisibleMonthsChange_def Let_def setTimeout_def clearTimeout_def)

lemma pending_after_onVisibleMonthsChange:
  assumes "timers_ok c" "items (props c) \<noteq> None" "\<not> firstResevationLoad c"
  shows "pending_month_loads (onVisibleMonthsChange months c) =
           [(nextTimer c, now c + 200, LoadMonth (case months of [] \<Rightarrow> None | m # _ \<Rightarrow> Some m))]"
    and "scrollTimeout (onVisibleMonthsChange months c) = Some (nextTimer c)"
    and "\<forall>t \<in> set (pending_month_loads c). t \<notin> set (timers (onVisibleMonthsChange months c))"
proof -
  note eq = onVisibleMonthsChange_schedules [OF assms(2,3), of months]
  show "pending_month_loads (onVisibleMonthsChange months c) =
           [(nextTimer c, now c + 200, LoadMonth (case months of [] \<Rightarrow> None | m # _ \<Rightarrow> Some m))]"
    by (simp add: eq pending_month_loads_def clear_no_month_loads [OF assms(1)])
  show "scrollTimeout (onVisibleMonthsChange months c) = Some (nextTimer c)"
    by (simp add: eq)
  show "\<forall>t \<in> set (pending_month_loads c). t \<notin> set (timers (onVisibleMonthsChange months c))"
  proof
    fix t
    assume t: "t \<in> set (pending_month_loads c)"
    then have l: "is_month_load t" and m: "t \<in> set (timers c)"
      by (simp_all add: pending_month_loads_def)
    from assms(1) l m have st: "scrollTimeout c = Some (fst t)" and lt: "fst t < nextTimer c"
      by (auto simp add: timers_ok_def)
    show "t \<notin> set (timers (onVisibleMonthsChange months c))"
      using st lt by (cases t) (auto simp add: eq clearTimeout_def)
  qed
qed

lemma onVisibleMonthsChange_idle:
  "\<not> (items (props c) \<noteq> None \<and> \<not> firstResevationLoad c) \<Longrightarrow> onVisibleMonthsChange months c = c"
  by (auto simp add: onVisibleMonthsChange_def)

lemma new_effects_month_load:
  "new_effects c (snd (run_action (LoadMonth m) (c\<lparr>timers := ts\<rparr>))) =
     (if loadItemsForMonth (props c) \<and> isMounted c then [LoadItemsForMonth (FirstVisible m)] else [])"
  by (simp add: new_effects_def emit_def)

lemma find_last_fresh:
  "\<forall>t \<in> set ts. fst t \<noteq> n \<Longrightarrow> find (\<lambda>p. fst p = n) (ts @ [(n, x)]) = Some (n, x)"
  by (induction ts) auto

lemma filter_fresh:
  "\<forall>t \<in> set ts. fst t \<noteq> n \<Longrightarrow> filter (\<lambda>p. fst p \<noteq> n) ts = ts"
  by (induction ts) auto

lemma fire_fresh_timer:
  assumes "\<forall>t \<in> set ts. fst t < n" "timers c = ts @ [(n, due, a)]"
  shows "fire n c = (if due \<le> now c then run_action a (c\<lparr>timers := ts\<rparr>) else (None, c))"
proof -
  have ne: "\<forall>t \<in> set ts. fst t \<noteq> n"
    using assms(1) by auto
  show ?thesis
    by (simp add: fire_def assms(2) find_last_fresh [OF ne] filter_fresh [OF ne])
qed

lemma timers_ok_fresh: "timers_ok c \<Longrightarrow> \<forall>t \<in> set (timers c). fst t < nextTimer c"
  by (simp add: timers_ok_def)

lemma enableCalendarScrolling_fields:
  "calendarScrollable (enableCalendarScrolling c)"
  "timers (enableCalendarScrolling c) = timers c @ [(nextTimer c, now c + 500, ScrollToSelected)]"
  "effects (enableCalendarScrolling c) = effects c"
  "nextTimer (enableCalendarScrolling c) = Suc (nextTimer c)"
  "now (enableCalendarScrolling c) = now c"
  "selectedDay (enableCalendarScrolling c) = selectedDay c"
  "props (enableCalendarScrolling c) = props c"
  "calendarRef (enableCalendarScrolling c) = calendarRef c"
  "scrollPadRef (enableCalendarScrolling c) = scrollPadRef c"
  by (simp_all add: enableCalendarScrolling_def setTimeout_def)

lemma scroll_timer_early:
  assumes "timers_ok c" "dt < 500"
  shows "fire (nextTimer c) (advance dt (enableCalendarScrolling c)) =
           (None, advance dt (enableCalendarScrolling c))"
proof -
  have t: "timers (advance dt (enableCalendarScrolling c)) = timers c @ [(nextTimer c, now c + 500, ScrollToSelected)]"
    by (simp add: advance_def enableCalendarScrolling_fields)
  show ?thesis
    using assms(2) fire_fresh_timer [OF timers_ok_fresh [OF assms(1)] t]
    by (simp add: advance_def enableCalendarScrolling_fields)
qed

lemma scroll_timer_due:
  assumes "timers_ok c" "500 \<le> dt" "calendarRef c"
  shows "fire (nextTimer c) (advance dt (enableCalendarScrolling c)) =
      run_action ScrollToSelected ((advance dt (enableCalendarScrolling c))\<lparr>timers := timers c\<rparr>)"
proof -
  have t: "timers (advance dt (enableCalendarScrolling c)) = timers c @ [(nextTimer c, now c + 500, ScrollToSelected)]"
    by (simp add: advance_def enableCalendarScrolling_fields)
  show ?thesis
    using assms(2) fire_fresh_timer [OF timers_ok_fresh [OF assms(1)] t]
    by (simp add: advance_def enableCalendarScrolling_fields)
qed

lemma after_scroll_timer_due:
  assumes "timers_ok c" "500 \<le> dt" "calendarRef c"
  shows "fst (fire (nextTimer c) (advance dt (enableCalendarScrolling c))) = None"
    and "effects (after_scroll_timer c dt) = effects c @ [CalendarScrollToDay (selectedDay c) 0 False]"
    and "timers (after_scroll_timer c dt) = timers c @ [(Suc (nextTimer c), now c + dt + 500, NotifyToggled True)]"
    and "props (after_scroll_timer c dt) = props c"
    and "now (after_scroll_timer c dt) = now c + dt"
proof -
  note eq = scroll_timer_due [OF assms]
  have r: "calendarRef ((advance dt (enableCalendarScrolling c))\<lparr>timers := timers c\<rparr>)"
    using assms(3) by (simp add: advance_def enableCalendarScrolling_fields)
  show "fst (fire (nextTimer c) (advance dt (enableCalendarScrolling c))) = None"
    unfolding eq using r by simp
  show "effects (after_scroll_timer c dt) = effects c @ [CalendarScrollToDay (selectedDay c) 0 False]"
    unfolding after_scroll_timer_def eq using r
    by (simp add: setTimeout_def emit_def advance_def enableCalendarScrolling_fields)
  show "timers (after_scroll_timer c dt) = timers c @ [(Suc (nextTimer c), now c + dt + 500, NotifyToggled True)]"
    unfolding after_scroll_timer_def eq using r
    by (simp add: setTimeout_def emit_def advance_def enableCalendarScrolling_fields)
  show "props (after_scroll_timer c dt) = props c"
    unfolding after_scroll_timer_def eq using r
    by (simp add: setTimeout_def emit_def advance_def enableCalendarScrolling_fields)
  show "now (after_scroll_timer c dt) = now c + dt"
    unfolding after_scroll_timer_def eq using r
    by (simp add: setTimeout_def emit_def advance_def enableCalendarScrolling_fields)
qed

lemma after_notify_timer_run:
  assumes "timers_ok c" "500 \<le> dt" "calendarRef c"
  shows "dt2 < 500 \<Longrightarrow> after_notify_timer c dt dt2 = advance dt2 (after_scroll_timer c dt)"
    and "500 \<le> dt2 \<Longrightarrow> new_effects (after_scroll_timer c dt) (after_notify_timer c dt dt2) =
           (if onCalendarToggled (props c) then [OnCalendarToggled True] else [])"
    and "500 \<le> dt2 \<Longrightarrow> timers (after_notify_timer c dt dt2) = timers c"
proof -
  let ?c2 = "advance dt2 (after_scroll_timer c dt)"
  have t: "timers ?c2 = timers c @ [(Suc (nextTimer c), now c + dt + 500, NotifyToggled True)]"
    by (simp add: advance_def after_scroll_timer_due [OF assms])
  have fr: "\<forall>t \<in> set (timers c). fst t < Suc (nextTimer c)"
    using timers_ok_fresh [OF assms(1)] by (auto simp add: less_Suc_eq)
  have eq: "fire (Suc (nextTimer c)) ?c2 =
     (if now c + dt + 500 \<le> now ?c2 then run_action (NotifyToggled True) (?c2\<lparr>timers := timers c\<rparr>)
      else (None, ?c2))"
    by (rule fire_fresh_timer [OF fr t])
  have nw: "now ?c2 = now c + dt + dt2"
    by (simp add: advance_def after_scroll_timer_due [OF assms])
  show "after_notify_timer c dt dt2 = advance dt2 (after_scroll_timer c dt)" if "dt2 < 500"
    unfolding after_notify_timer_def eq using that by (simp add: nw)
  show "new_effects (after_scroll_timer c dt) (after_notify_timer c dt dt2) =
           (if onCalendarToggled (props c) then [OnCalendarToggled True] else [])" if "500 \<le> dt2"
    unfolding after_notify_timer_def eq using that
    by (simp add: nw new_effects_def emit_def advance_def after_scroll_timer_due [OF assms])
  show "timers (after_notify_timer c dt dt2) = timers c" if "500 \<le> dt2"
    unfolding after_notify_timer_def eq using that by (simp add: nw emit_def)
qed

lemma chooseDay_timers:
  "timers (snd (chooseDay L d c)) =
     (if calendarScrollable c then timers c @ [(nextTimer c, now c + 1000, NotifyToggled False)]
      else timers c)"
  by (simp add: chooseDay_def Let_def setTimeout_def setScrollPadPosition_def emit_def
        split: option.split)

lemma chooseDay_effects:
  "effects (snd (chooseDay L d c)) =
     effects c @
     (case parseDate L d of
        None \<Rightarrow> []
      | Some dy \<Rightarrow>
          (if scrollPadRef c then
             [ScrollPadTo (initialScrollPadPosition c) False]
             @ (if loadItemsForMonth (props c) then [LoadItemsForMonth (DataOf dy)] else [])
             @ (if onDayPress (props c) then [OnDayPress dy] else [])
           else []))"
  by (simp add: chooseDay_def Let_def setTimeout_def setScrollPadPosition_def emit_def
        initialScrollPadPosition_def split: option.split)

lemma chooseDay_new_effects:
  "new_effects c (snd (chooseDay L d c)) =
     (case parseDate L d of
        None \<Rightarrow> []
      | Some dy \<Rightarrow>
          (if scrollPadRef c then
             [ScrollPadTo (initialScrollPadPosition c) False]
             @ (if loadItemsForMonth (props c) then [LoadItemsForMonth (DataOf dy)] else [])
             @ (if onDayPress (props c) then [OnDayPress dy] else [])
           else []))"
  by (simp add: new_effects_def chooseDay_effects)

lemma chooseDay_error:
  "fst (chooseDay L d c) =
     (if parseDate L d = None \<or> \<not> scrollPadRef c then Some TypeError else None)"
  by (simp add: chooseDay_def Let_def setTimeout_def setScrollPadPosition_def
        split: option.split)

lemma chooseDay_keeps:
  "props (snd (chooseDay L d c)) = props c"
  "now (snd (chooseDay L d c)) = now c"
  "calendarRef (snd (chooseDay L d c)) = calendarRef c"
  by (simp_all add: chooseDay_def Let_def setTimeout_def setScrollPadPosition_def emit_def
        split: option.split)

lemma chooseDay_no_toggle: "OnCalendarToggled b \<notin> set (new_effects c (snd (chooseDay L d c)))"
  by (simp add: chooseDay_new_effects split: option.split)

lemma after_choose_timer_run:
  assumes "timers_ok c" "calendarScrollable c"
  shows "dt < 1000 \<Longrightarrow> after_choose_timer L d c dt = advance dt (snd (chooseDay L d c))"
    and "1000 \<le> dt \<Longrightarrow> new_effects (snd (chooseDay L d c)) (after_choose_timer L d c dt) =
           (if onCalendarToggled (props c) then [OnCalendarToggled False] else [])"
proof -
  let ?c1 = "advance dt (snd (chooseDay L d c))"
  have t: "timers ?c1 = timers c @ [(nextTimer c, now c + 1000, NotifyToggled False)]"
    using assms(2) by (simp add: advance_def chooseDay_timers)
  have eq: "fire (nextTimer c) ?c1 =
     (if now c + 1000 \<le> now ?c1 then run_action (NotifyToggled False) (?c1\<lparr>timers := timers c\<rparr>)
      else (None, ?c1))"
    by (rule fire_fresh_timer [OF timers_ok_fresh [OF assms(1)] t])
  have nw: "now ?c1 = now c + dt"
    by (simp add: advance_def chooseDay_keeps)
  show "after_choose_timer L d c dt = advance dt (snd (chooseDay L d c))" if "dt < 1000"
    unfolding after_choose_timer_def eq using that by (simp add: nw)
  show "new_effects (snd (chooseDay L d c)) (after_choose_timer L d c dt) =
           (if onCalendarToggled (props c) then [OnCalendarToggled False] else [])" if "1000 \<le> dt"
    unfolding after_choose_timer_def eq using that
    by (simp add: nw new_effects_def emit_def advance_def chooseDay_keeps)
qed

lemma chooseDay_parsed:
  assumes "parseDate L d = Some dy"
  shows "\<not> calendarScrollable (snd (chooseDay L d c))"
    and "selectedDay (snd (chooseDay L d c)) = dy"
  using assms
  by (simp_all add: chooseDay_def Let_def setScrollPadPosition_def emit_def)

lemma chooseDay_failed:
  assumes "parseDate L d = None"
  shows "fst (chooseDay L d c) = Some TypeError"
    and "calendarScrollable (snd (chooseDay L d c)) = calendarScrollable c"
    and "selectedDay (snd (chooseDay L d c)) = selectedDay c"
  using assms
  by (simp_all add: chooseDay_def Let_def setTimeout_def)

lemma loadReservations_absent:
  "\<not> loadItemsForMonth (props c) \<Longrightarrow>
   loadReservations h p c =
     (if (case items p of None \<Rightarrow> True | Some a \<Rightarrow> object_keys h (JRef a) = [])
         \<and> \<not> firstResevationLoad c
      then c\<lparr>firstResevationLoad := True\<rparr> else c)"
  by (simp add: loadReservations_def)

lemma fire_absent:
  assumes "timers_ok c" "(i, due, a) \<in> set (timers c)" "due \<le> now c"
  shows "a = LoadMonth m \<Longrightarrow> \<not> loadItemsForMonth (props c) \<Longrightarrow>
           fire i c = (None, c\<lparr>timers := filter (\<lambda>p. fst p \<noteq> i) (timers c)\<rparr>)"
    and "a = NotifyToggled b \<Longrightarrow> \<not> onCalendarToggled (props c) \<Longrightarrow>
           fire i c = (None, c\<lparr>timers := filter (\<lambda>p. fst p \<noteq> i) (timers c)\<rparr>)"
    and "a = ScrollToSelected \<Longrightarrow> calendarRef c \<Longrightarrow>
           fire i c =
             (None, c\<lparr>timers := filter (\<lambda>p. fst p \<noteq> i) (timers c)
                               @ [(nextTimer c, now c + 500, NotifyToggled True)],
                        nextTimer := Suc (nextTimer c),
                        effects := effects c @ [CalendarScrollToDay (selectedDay c) 0 False]\<rparr>)"
proof -
  from assms(1) have "distinct (map fst (timers c))"
    by (simp add: timers_ok_def)
  note f = fire_pending [OF this assms(2)]
  show "fire i c = (None, c\<lparr>timers := filter (\<lambda>p. fst p \<noteq> i) (timers c)\<rparr>)"
    if "a = LoadMonth m" "\<not> loadItemsForMonth (props c)"
    using that assms(3) by (simp add: f)
  show "fire i c = (None, c\<lparr>timers := filter (\<lambda>p. fst p \<noteq> i) (timers c)\<rparr>)"
    if "a = NotifyToggled b" "\<not> onCalendarToggled (props c)"
    using that assms(3) by (simp add: f)
  show "fire i c =
             (None, c\<lparr>timers := filter (\<lambda>p. fst p \<noteq> i) (timers c)
                               @ [(nextTimer c, now c + 500, NotifyToggled True)],
                        nextTimer := Suc (nextTimer c),
                        effects := effects c @ [CalendarScrollToDay (selectedDay c) 0 False]\<rparr>)"
    if "a = ScrollToSelected" "calendarRef c"
    using that assms(3) by (simp add: f setTimeout_def emit_def)
qed

lemma unrelated_event_keeps_view_state:
  assumes "ev \<noteq> ExpandCalendar" "ev \<noteq> EnableCalendarScrolling" "ev \<noteq> CompactCalendar"
      and "\<forall>d. ev \<noteq> ChooseDay d"
  shows "calendarScrollable (apply_event L ev c) = calendarScrollable c"
proof (cases ev)
  case (TimerFires i)
  have "calendarScrollable (snd (run_action a c')) = calendarScrollable c'"
    for a and c' :: "('a, 'b, 'c) comp"
    by (cases a) (simp_all add: emit_def setTimeout_def)
  then show ?thesis
    using TimerFires by (simp add: fire_def split: option.split)
qed (use assms in \<open>simp_all add: componentWillMount_def componentWillUnmount_def
      componentDidUpdate_def loadReservations_def onLayout_def onScrollPadLayout_def
      onCalendarLayout_def setScrollPadRef_def setCalendarRef_def
      onVisibleMonthsChange_def emit_def setTimeout_def clearTimeout_def
      setScrollPadPosition_def advance_def Let_def split: option.split prod.split\<close>)

text \<open>The example states.\<close>

lemmas ex_defs = ex_comp_def ex_comp_cb_def ex_props_def ex_props_cb_def ex_lib_def constructor_def

lemmas ex_rendered_defs = ex_rendered_def ex_rendered_cb_def componentWillMount_def
  loadReservations_def object_keys_def cell_def ex_heap_def setScrollPadRef_def setCalendarRef_def
  Let_def ex_defs

lemmas ex_removed_defs = ex_removed_def ex_removed_cb_def advance_def componentWillUnmount_def
  enableCalendarScrolling_def setTimeout_def ex_rendered_defs

lemma ex_comp_reachable: "ex_comp \<in> reachable ex_lib" "ex_comp_cb \<in> reachable ex_lib"
  unfolding ex_comp_def ex_comp_cb_def by (rule reachable.init)+

lemma ex_rendered_reachable: "ex_rendered \<in> reachable ex_lib" "ex_rendered_cb \<in> reachable ex_lib"
proof -
  have "apply_event ex_lib (CalendarRef True) (apply_event ex_lib (ScrollPadRef True)
          (apply_event ex_lib (WillMount ex_heap) ex_comp)) \<in> reachable ex_lib"
    by (intro reachable.step ex_comp_reachable)
  then show "ex_rendered \<in> reachable ex_lib" by (simp add: ex_rendered_def)
  have "apply_event ex_lib (CalendarRef True) (apply_event ex_lib (ScrollPadRef True)
          (apply_event ex_lib (WillMount ex_heap) ex_comp_cb)) \<in> reachable ex_lib"
    by (intro reachable.step ex_comp_reachable)
  then show "ex_rendered_cb \<in> reachable ex_lib" by (simp add: ex_rendered_cb_def)
qed

lemma ex_visible_reachable: "ex_visible \<in> reachable ex_lib"
proof -
  have "apply_event ex_lib (VisibleMonthsChange [''2024-05'']) ex_rendered_cb \<in> reachable ex_lib"
    by (intro reachable.step ex_rendered_reachable)
  then show ?thesis by (simp add: ex_visible_def)
qed

lemma ex_removed_reachable: "ex_removed \<in> reachable ex_lib" "ex_removed_cb \<in> reachable ex_lib"
proof -
  have "apply_event ex_lib (TimePasses 500) (apply_event ex_lib (CalendarRef False)
          (apply_event ex_lib (ScrollPadRef False) (apply_event ex_lib WillUnmount
            (apply_event ex_lib EnableCalendarScrolling ex_rendered)))) \<in> reachable ex_lib"
    by (intro reachable.step ex_rendered_reachable)
  then show "ex_removed \<in> reachable ex_lib" by (simp add: ex_removed_def)
  have "apply_event ex_lib (TimePasses 500) (apply_event ex_lib (CalendarRef False)
          (apply_event ex_lib (ScrollPadRef False) (apply_event ex_lib WillUnmount
            (apply_event ex_lib EnableCalendarScrolling ex_rendered_cb)))) \<in> reachable ex_lib"
    by (intro reachable.step ex_rendered_reachable)
  then show "ex_removed_cb \<in> reachable ex_lib" by (simp add: ex_removed_cb_def)
qed

lemma ex_visible_fields:
  "timers ex_visible = [(0, 200, LoadMonth (Some ''2024-05''))]"
  "nextTimer ex_visible = 1" "now ex_visible = 0"
  "items (props ex_visible) = Some 0" "\<not> firstResevationLoad ex_visible"
  "loadItemsForMonth (props ex_visible)" "isMounted ex_visible"
  by (simp_all add: ex_visible_def onVisibleMonthsChange_def clearTimeout_def setTimeout_def
        ex_rendered_defs)

lemma ex_comp_fields: "\<not> calendarScrollable ex_comp"
  by (simp add: ex_defs)

lemma ex_rendered_cb_fields:
  "timers ex_rendered_cb = []" "nextTimer ex_rendered_cb = 0" "now ex_rendered_cb = 0"
  "effects ex_rendered_cb = []"
  "selectedDay ex_rendered_cb = ''2024-05-01''" "\<not> calendarScrollable ex_rendered_cb"
  "onCalendarToggled (props ex_rendered_cb)" "loadItemsForMonth (props ex_rendered_cb)"
  "onDayPress (props ex_rendered_cb)" "viewHeight ex_rendered_cb = 700"
  "scrollPadRef ex_rendered_cb" "calendarRef ex_rendered_cb" "isMounted ex_rendered_cb"
  by (simp_all add: ex_rendered_defs)

lemma ex_rendered_fields:
  "timers ex_rendered = []" "nextTimer ex_rendered = 0" "now ex_rendered = 0"
  "effects ex_rendered = []"
  "selectedDay ex_rendered = ''2024-05-01''" "\<not> calendarScrollable ex_rendered"
  "\<not> onCalendarToggled (props ex_rendered)" "\<not> loadItemsForMonth (props ex_rendered)"
  "\<not> onDayPress (props ex_rendered)" "viewHeight ex_rendered = 700"
  "scrollPadRef ex_rendered" "calendarRef ex_rendered" "isMounted ex_rendered"
  by (simp_all add: ex_rendered_defs)

text \<open>
  C6. In every reachable state at most one month-load timer is pending. A call of
  \<^verbatim>\<open>onVisibleMonthsChange\<close> that schedules (items provided, first load not under way)
  clears the timer \<^verbatim>\<open>scrollTimeout\<close> names and leaves exactly the new timer pending, due
  200 ms later; otherwise it does nothing. When such a timer fires, it raises nothing
  and calls \<^verbatim>\<open>loadItemsForMonth(months[0])\<close> if and only if the callback is provided and
  the component is mounted at that moment; before its due time it does not fire.
  \<^verbatim>\<open>componentWillUnmount\<close> only clears the mounted flag: the pending timers stay.
\<close>

theorem single_pending_month_load:
  "(c \<in> reachable L \<longrightarrow> length (pending_month_loads c) \<le> 1)
   \<and> (c \<in> reachable L \<longrightarrow> items (props c) \<noteq> None \<longrightarrow> \<not> firstResevationLoad c \<longrightarrow>
        pending_month_loads (onVisibleMonthsChange months c) =
          [(nextTimer c, now c + 200, LoadMonth (case months of [] \<Rightarrow> None | m # _ \<Rightarrow> Some m))]
        \<and> scrollTimeout (onVisibleMonthsChange months c) = Some (nextTimer c)
        \<and> (\<forall>t \<in> set (pending_month_loads c). t \<notin> set (timers (onVisibleMonthsChange months c))))
   \<and> (\<not> (items (props c) \<noteq> None \<and> \<not> firstResevationLoad c) \<longrightarrow> onVisibleMonthsChange months c = c)
   \<and> (\<forall>i due m. c \<in> reachable L \<longrightarrow> (i, due, LoadMonth m) \<in> set (timers c) \<longrightarrow> due \<le> now c \<longrightarrow>
        new_effects c (snd (fire i c)) =
          (if loadItemsForMonth (props c) \<and> isMounted c then [LoadItemsForMonth (FirstVisible m)] else []))
   \<and> (\<forall>i due m. c \<in> reachable L \<longrightarrow> (i, due, LoadMonth m) \<in> set (timers c) \<longrightarrow> now c < due \<longrightarrow>
        fire i c = (None, c))
   \<and> componentWillUnmount c = c\<lparr>isMounted := False\<rparr>
   \<and> timers (componentWillUnmount c) = timers c
   \<and> pending_month_loads (componentWillUnmount c) = pending_month_loads c
   \<and> (\<forall>i due m. c \<in> reachable L \<longrightarrow> (i, due, LoadMonth m) \<in> set (timers c) \<longrightarrow>
        fst (fire i c) = None)"
proof -
  have A: "c \<in> reachable L \<longrightarrow> length (pending_month_loads c) \<le> 1"
    using reachable_timers_ok [of c L] timers_ok_at_most_one [of c] by blast
  have B: "c \<in> reachable L \<longrightarrow> items (props c) \<noteq> None \<longrightarrow> \<not> firstResevationLoad c \<longrightarrow>
        pending_month_loads (onVisibleMonthsChange months c) =
          [(nextTimer c, now c + 200, LoadMonth (case months of [] \<Rightarrow> None | m # _ \<Rightarrow> Some m))]
        \<and> scrollTimeout (onVisibleMonthsChange months c) = Some (nextTimer c)
        \<and> (\<forall>t \<in> set (pending_month_loads c). t \<notin> set (timers (onVisibleMonthsChange months c)))"
    using pending_after_onVisibleMonthsChange [of c months] reachable_timers_ok [of c L]
    by blast
  have C: "\<not> (items (props c) \<noteq> None \<and> \<not> firstResevationLoad c) \<longrightarrow> onVisibleMonthsChange months c = c"
    using onVisibleMonthsChange_idle [of c months] by blast
  have D: "\<forall>i due m. c \<in> reachable L \<longrightarrow> (i, due, LoadMonth m) \<in> set (timers c) \<longrightarrow> due \<le> now c \<longrightarrow>
        new_effects c (snd (fire i c)) =
          (if loadItemsForMonth (props c) \<and> isMounted c then [LoadItemsForMonth (FirstVisible m)] else [])"
  proof (intro allI impI)
    fix i due m
    assume r: "c \<in> reachable L" and p: "(i, due, LoadMonth m) \<in> set (timers c)" and d: "due \<le> now c"
    from reachable_timers_ok [OF r] have "distinct (map fst (timers c))"
      by (simp add: timers_ok_def)
    from fire_pending [OF this p] d
    have "fire i c = run_action (LoadMonth m) (c\<lparr>timers := filter (\<lambda>p. fst p \<noteq> i) (timers c)\<rparr>)"
      by simp
    then show "new_effects c (snd (fire i c)) =
          (if loadItemsForMonth (props c) \<and> isMounted c then [LoadItemsForMonth (FirstVisible m)] else [])"
      by (simp only: new_effects_month_load)
  qed
  have E: "\<forall>i due m. c \<in> reachable L \<longrightarrow> (i, due, LoadMonth m) \<in> set (timers c) \<longrightarrow> now c < due \<longrightarrow>
        fire i c = (None, c)"
  proof (intro allI impI)
    fix i due m
    assume r: "c \<in> reachable L" and p: "(i, due, LoadMonth m) \<in> set (timers c)" and d: "now c < due"
    from reachable_timers_ok [OF r] have "distinct (map fst (timers c))"
      by (simp add: timers_ok_def)
    from fire_pending [OF this p] d show "fire i c = (None, c)"
      by simp
  qed
  have F: "componentWillUnmount c = c\<lparr>isMounted := False\<rparr>"
    by (simp add: componentWillUnmount_def)
  have G: "timers (componentWillUnmount c) = timers c"
    by (simp add: componentWillUnmount_def)
  have H: "pending_month_loads (componentWillUnmount c) = pending_month_loads c"
    by (simp add: componentWillUnmount_def pending_month_loads_def)
  have I: "\<forall>i due m. c \<in> reachable L \<longrightarrow> (i, due, LoadMonth m) \<in> set (timers c) \<longrightarrow>
        fst (fire i c) = None"
  proof (intro allI impI)
    fix i due m
    assume r: "c \<in> reachable L" and p: "(i, due, LoadMonth m) \<in> set (timers c)"
    from reachable_timers_ok [OF r] have "distinct (map fst (timers c))"
      by (simp add: timers_ok_def)
    from fire_pending [OF this p] show "fst (fire i c) = None"
      by simp
  qed
  from A B C D E F G H I show ?thesis
    by (intro conjI)
qed

theorem single_pending_month_load_witness:
  "ex_visible \<in> reachable ex_lib
   \<and> pending_month_loads ex_visible = [(0, 200, LoadMonth (Some ''2024-05''))]
   \<and> length (pending_month_loads ex_visible) \<le> 1
   \<and> pending_month_loads (onVisibleMonthsChange [''2024-06''] ex_visible)
       = [(1, 200, LoadMonth (Some ''2024-06''))]
   \<and> new_effects (advance 200 ex_visible) (snd (fire 0 (advance 200 ex_visible)))
       = [LoadItemsForMonth (FirstVisible (Some ''2024-05''))]
   \<and> new_effects (advance 200 (componentWillUnmount ex_visible))
        (snd (fire 0 (advance 200 (componentWillUnmount ex_visible)))) = []
   \<and> fire 0 (advance 199 ex_visible) = (None, advance 199 ex_visible)"
proof -
  note r = ex_visible_reachable
  note T = single_pending_month_load [where c = ex_visible and L = ex_lib and months = "[''2024-06'']"]
  have p: "pending_month_loads ex_visible = [(0, 200, LoadMonth (Some ''2024-05''))]"
    by (simp add: pending_month_loads_def ex_visible_fields)
  have one: "length (pending_month_loads ex_visible) \<le> 1"
    by (rule T [THEN conjunct1, THEN mp, OF r])
  have i: "items (props ex_visible) \<noteq> None"
    by (simp add: ex_visible_fields)
  have f: "\<not> firstResevationLoad ex_visible"
    by (simp add: ex_visible_fields)
  have again: "pending_month_loads (onVisibleMonthsChange [''2024-06''] ex_visible)
       = [(1, 200, LoadMonth (Some ''2024-06''))]"
    using T [THEN conjunct2, THEN conjunct1, THEN mp, THEN mp, THEN mp, OF r i f, THEN conjunct1]
    by (simp add: ex_visible_fields)
  have r200: "advance 200 ex_visible \<in> reachable ex_lib"
    using reachable.step [OF r, where ev = "TimePasses 200"] by simp
  have r199: "advance 199 ex_visible \<in> reachable ex_lib"
    using reachable.step [OF r, where ev = "TimePasses 199"] by simp
  have ru: "advance 200 (componentWillUnmount ex_visible) \<in> reachable ex_lib"
    using reachable.step [OF reachable.step [OF r, where ev = WillUnmount], where ev = "TimePasses 200"]
    by simp
  have m200: "(0, 200, LoadMonth (Some ''2024-05'')) \<in> set (timers (advance 200 ex_visible))"
    by (simp add: advance_def ex_visible_fields)
  have m199: "(0, 200, LoadMonth (Some ''2024-05'')) \<in> set (timers (advance 199 ex_visible))"
    by (simp add: advance_def ex_visible_fields)
  have mu: "(0, 200, LoadMonth (Some ''2024-05'')) \<in> set (timers (advance 200 (componentWillUnmount ex_visible)))"
    by (simp add: advance_def componentWillUnmount_def ex_visible_fields)
  have d200: "200 \<le> now (advance 200 ex_visible)"
    by (simp add: advance_def ex_visible_fields)
  have du: "200 \<le> now (advance 200 (componentWillUnmount ex_visible))"
    by (simp add: advance_def componentWillUnmount_def ex_visible_fields)
  have e199: "now (advance 199 ex_visible) < 200"
    by (simp add: advance_def ex_visible_fields)
  have fired: "new_effects (advance 200 ex_visible) (snd (fire 0 (advance 200 ex_visible)))
       = [LoadItemsForMonth (FirstVisible (Some ''2024-05''))]"
    using single_pending_month_load [where c = "advance 200 ex_visible" and L = ex_lib,
        THEN conjunct2, THEN conjunct2, THEN conjunct2, THEN conjunct1,
        THEN spec, THEN spec, THEN spec, THEN mp, THEN mp, THEN mp, OF r200 m200 d200]
    by (simp add: advance_def ex_visible_fields)
  have unmounted: "new_effects (advance 200 (componentWillUnmount ex_visible))
        (snd (fire 0 (advance 200 (componentWillUnmount ex_visible)))) = []"
    using single_pending_month_load [where c = "advance 200 (componentWillUnmount ex_visible)" and L = ex_lib,
        THEN conjunct2, THEN conjunct2, THEN conjunct2, THEN conjunct1,
        THEN spec, THEN spec, THEN spec, THEN mp, THEN mp, THEN mp, OF ru mu du]
    by (simp add: advance_def componentWillUnmount_def)
  have early: "fire 0 (advance 199 ex_visible) = (None, advance 199 ex_visible)"
    by (rule single_pending_month_load [where c = "advance 199 ex_visible" and L = ex_lib,
        THEN conjunct2, THEN conjunct2, THEN conjunct2, THEN conjunct2, THEN conjunct1,
        THEN spec, THEN spec, THEN spec, THEN mp, THEN mp, THEN mp, OF r199 m199 e199])
  from r p one again fired unmounted early show ?thesis
    by (intro conjI)
qed

lemma fire_notify:
  assumes "timers_ok c" "(i, due, NotifyToggled b) \<in> set (timers c)" "due \<le> now c"
  shows "fst (fire i c) = None"
    and "new_effects c (snd (fire i c)) =
           (if onCalendarToggled (props c) then [OnCalendarToggled b] else [])"
proof -
  from assms(1) have "distinct (map fst (timers c))"
    by (simp add: timers_ok_def)
  note f = fire_pending [OF this assms(2)]
  show "fst (fire i c) = None"
    using assms(3) by (simp add: f)
  show "new_effects c (snd (fire i c)) =
           (if onCalendarToggled (props c) then [OnCalendarToggled b] else [])"
    using assms(3) by (simp add: f new_effects_def emit_def)
qed

lemma fire_not_due:
  assumes "timers_ok c" "(i, due, a) \<in> set (timers c)" "now c < due"
  shows "fire i c = (None, c)"
proof -
  from assms(1) have "distinct (map fst (timers c))"
    by (simp add: timers_ok_def)
  from fire_pending [OF this assms(2)] assms(3) show ?thesis
    by simp
qed

text \<open>
  C5 (as the code has it). From a reachable state, \<^verbatim>\<open>enableCalendarScrolling\<close> sets
  \<^verbatim>\<open>calendarScrollable\<close> and schedules one timer, due 500 ms later, emitting nothing. No
  timer fires before it is due. When that timer fires while the calendar ref holds the
  calendar list, it raises nothing, scrolls the calendar to the selected day and
  schedules a second timer due 500 ms after that moment, which calls
  \<^verbatim>\<open>onCalendarToggled(true)\<close> if the callback is provided. \<^verbatim>\<open>chooseDay\<close> entered with the
  calendar scrollable schedules a timer due 1000 ms later that calls
  \<^verbatim>\<open>onCalendarToggled(false)\<close> if provided; entered with the calendar compact it
  schedules nothing; and it never calls \<^verbatim>\<open>onCalendarToggled\<close> itself.
\<close>

theorem toggle_timers_sequence:
  "c \<in> reachable L \<longrightarrow>
     calendarScrollable (enableCalendarScrolling c)
     \<and> timers (enableCalendarScrolling c) = timers c @ [(nextTimer c, now c + 500, ScrollToSelected)]
     \<and> effects (enableCalendarScrolling c) = effects c
     \<and> (\<forall>dt. dt < 500 \<longrightarrow>
           fire (nextTimer c) (advance dt (enableCalendarScrolling c)) =
             (None, advance dt (enableCalendarScrolling c)))
     \<and> (calendarRef c \<longrightarrow>
           (\<forall>dt. 500 \<le> dt \<longrightarrow>
               fst (fire (nextTimer c) (advance dt (enableCalendarScrolling c))) = None
             \<and> effects (after_scroll_timer c dt) =
                 effects c @ [CalendarScrollToDay (selectedDay c) 0 False]
             \<and> timers (after_scroll_timer c dt) =
                 timers c @ [(Suc (nextTimer c), now c + dt + 500, NotifyToggled True)])
         \<and> (\<forall>dt dt2. 500 \<le> dt \<longrightarrow> dt2 < 500 \<longrightarrow>
               after_notify_timer c dt dt2 = advance dt2 (after_scroll_timer c dt))
         \<and> (\<forall>dt dt2. 500 \<le> dt \<longrightarrow> 500 \<le> dt2 \<longrightarrow>
               new_effects (after_scroll_timer c dt) (after_notify_timer c dt dt2) =
                 (if onCalendarToggled (props c) then [OnCalendarToggled True] else [])
             \<and> timers (after_notify_timer c dt dt2) = timers c))
     \<and> (\<forall>i due. (i, due, ScrollToSelected) \<in> set (timers c) \<longrightarrow> due \<le> now c \<longrightarrow> calendarRef c \<longrightarrow>
           fire i c =
             (None, c\<lparr>timers := filter (\<lambda>p. fst p \<noteq> i) (timers c)
                               @ [(nextTimer c, now c + 500, NotifyToggled True)],
                        nextTimer := Suc (nextTimer c),
                        effects := effects c @ [CalendarScrollToDay (selectedDay c) 0 False]\<rparr>))
     \<and> (\<forall>i due b. (i, due, NotifyToggled b) \<in> set (timers c) \<longrightarrow> due \<le> now c \<longrightarrow>
           fst (fire i c) = None
         \<and> new_effects c (snd (fire i c)) =
             (if onCalendarToggled (props c) then [OnCalendarToggled b] else []))
     \<and> (\<forall>i due a. (i, due, a) \<in> set (timers c) \<longrightarrow> now c < due \<longrightarrow> fire i c = (None, c))
     \<and> (calendarScrollable c \<longrightarrow>
           timers (snd (chooseDay L d c)) = timers c @ [(nextTimer c, now c + 1000, NotifyToggled False)]
         \<and> (\<forall>dt. dt < 1000 \<longrightarrow> after_choose_timer L d c dt = advance dt (snd (chooseDay L d c)))
         \<and> (\<forall>dt. 1000 \<le> dt \<longrightarrow>
               new_effects (snd (chooseDay L d c)) (after_choose_timer L d c dt) =
                 (if onCalendarToggled (props c) then [OnCalendarToggled False] else [])))
     \<and> (\<not> calendarScrollable c \<longrightarrow> timers (snd (chooseDay L d c)) = timers c)
     \<and> (\<forall>b. OnCalendarToggled b \<notin> set (new_effects c (snd (chooseDay L d c))))"
proof
  assume "c \<in> reachable L"
  then have ok: "timers_ok c"
    by (rule reachable_timers_ok)
  note e = enableCalendarScrolling_fields [of c]
  note early = scroll_timer_early [OF ok]
  note a = after_scroll_timer_due(1,2,3) [OF ok]
  note b = after_notify_timer_run [OF ok]
  note ch = after_choose_timer_run [OF ok, where L = L and d = d]
  note fs = fire_absent(3) [OF ok, OF _ _ refl]
  note fn = fire_notify [OF ok]
  note nd = fire_not_due [OF ok]
  show "calendarScrollable (enableCalendarScrolling c)
     \<and> timers (enableCalendarScrolling c) = timers c @ [(nextTimer c, now c + 500, ScrollToSelected)]
     \<and> effects (enableCalendarScrolling c) = effects c
     \<and> (\<forall>dt. dt < 500 \<longrightarrow>
           fire (nextTimer c) (advance dt (enableCalendarScrolling c)) =
             (None, advance dt (enableCalendarScrolling c)))
     \<and> (calendarRef c \<longrightarrow>
           (\<forall>dt. 500 \<le> dt \<longrightarrow>
               fst (fire (nextTimer c) (advance dt (enableCalendarScrolling c))) = None
             \<and> effects (after_scroll_timer c dt) =
                 effects c @ [CalendarScrollToDay (selectedDay c) 0 False]
             \<and> timers (after_scroll_timer c dt) =
                 timers c @ [(Suc (nextTimer c), now c + dt + 500, NotifyToggled True)])
         \<and> (\<forall>dt dt2. 500 \<le> dt \<longrightarrow> dt2 < 500 \<longrightarrow>
               after_notify_timer c dt dt2 = advance dt2 (after_scroll_timer c dt))
         \<and> (\<forall>dt dt2. 500 \<le> dt \<longrightarrow> 500 \<le> dt2 \<longrightarrow>
               new_effects (after_scroll_timer c dt) (after_notify_timer c dt dt2) =
                 (if onCalendarToggled (props c) then [OnCalendarToggled True] else [])
             \<and> timers (after_notify_timer c dt dt2) = timers c))
     \<and> (\<forall>i due. (i, due, ScrollToSelected) \<in> set (timers c) \<longrightarrow> due \<le> now c \<longrightarrow> calendarRef c \<longrightarrow>
           fire i c =
             (None, c\<lparr>timers := filter (\<lambda>p. fst p \<noteq> i) (timers c)
                               @ [(nextTimer c, now c + 500, NotifyToggled True)],
                        nextTimer := Suc (nextTimer c),
                        effects := effects c @ [CalendarScrollToDay (selectedDay c) 0 False]\<rparr>))
     \<and> (\<forall>i due b. (i, due, NotifyToggled b) \<in> set (timers c) \<longrightarrow> due \<le> now c \<longrightarrow>
           fst (fire i c) = None
         \<and> new_effects c (snd (fire i c)) =
             (if onCalendarToggled (props c) then [OnCalendarToggled b] else []))
     \<and> (\<forall>i due a. (i, due, a) \<in> set (timers c) \<longrightarrow> now c < due \<longrightarrow> fire i c = (None, c))
     \<and> (calendarScrollable c \<longrightarrow>
           timers (snd (chooseDay L d c)) = timers c @ [(nextTimer c, now c + 1000, NotifyToggled False)]
         \<and> (\<forall>dt. dt < 1000 \<longrightarrow> after_choose_timer L d c dt = advance dt (snd (chooseDay L d c)))
         \<and> (\<forall>dt. 1000 \<le> dt \<longrightarrow>
               new_effects (snd (chooseDay L d c)) (after_choose_timer L d c dt) =
                 (if onCalendarToggled (props c) then [OnCalendarToggled False] else [])))
     \<and> (\<not> calendarScrollable c \<longrightarrow> timers (snd (chooseDay L d c)) = timers c)
     \<and> (\<forall>b. OnCalendarToggled b \<notin> set (new_effects c (snd (chooseDay L d c))))"
    apply (intro conjI allI impI)
    apply (rule e(1))
    apply (rule e(2))
    apply (rule e(3))
    apply (erule early)
    apply (erule (1) a(1))
    apply (erule (1) a(2))
    apply (erule (1) a(3))
    apply (erule (2) b(1))
    apply (erule (2) b(2))
    apply (erule (2) b(3))
    apply (erule (2) fs)
    apply (erule (1) fn(1))
    apply (erule (1) fn(2))
    apply (erule (1) nd)
    apply (simp add: chooseDay_timers)
    apply (erule (1) ch(1))
    apply (erule (1) ch(2))
    apply (simp add: chooseDay_timers)
    apply (rule chooseDay_no_toggle)
    done
qed

theorem toggle_timers_sequence_witness:
  "ex_rendered_cb \<in> reachable ex_lib
   \<and> calendarRef ex_rendered_cb
   \<and> calendarScrollable (enableCalendarScrolling ex_rendered_cb)
   \<and> timers (enableCalendarScrolling ex_rendered_cb) = [(0, 500, ScrollToSelected)]
   \<and> fire 0 (advance 499 (enableCalendarScrolling ex_rendered_cb)) =
       (None, advance 499 (enableCalendarScrolling ex_rendered_cb))
   \<and> fst (fire 0 (advance 500 (enableCalendarScrolling ex_rendered_cb))) = None
   \<and> effects (after_scroll_timer ex_rendered_cb 500) = [CalendarScrollToDay ''2024-05-01'' 0 False]
   \<and> timers (after_scroll_timer ex_rendered_cb 500) = [(1, 1000, NotifyToggled True)]
   \<and> after_notify_timer ex_rendered_cb 500 499 = advance 499 (after_scroll_timer ex_rendered_cb 500)
   \<and> new_effects (after_scroll_timer ex_rendered_cb 500) (after_notify_timer ex_rendered_cb 500 500)
       = [OnCalendarToggled True]
   \<and> enableCalendarScrolling ex_rendered_cb \<in> reachable ex_lib
   \<and> timers (snd (chooseDay ex_lib (RawDate ''2024-05-03'') (enableCalendarScrolling ex_rendered_cb)))
       = [(0, 500, ScrollToSelected), (1, 1000, NotifyToggled False)]
   \<and> new_effects (snd (chooseDay ex_lib (RawDate ''2024-05-03'') (enableCalendarScrolling ex_rendered_cb)))
        (after_choose_timer ex_lib (RawDate ''2024-05-03'') (enableCalendarScrolling ex_rendered_cb) 1000)
       = [OnCalendarToggled False]
   \<and> timers (snd (chooseDay ex_lib (RawDate ''2024-05-03'') ex_rendered_cb)) = []"
proof -
  note r = ex_rendered_reachable(2)
  note cr = ex_rendered_cb_fields(12)
  note T = toggle_timers_sequence [where c = ex_rendered_cb and L = ex_lib and d = "RawDate ''2024-05-03''",
      THEN mp, OF r]
  have a: "calendarScrollable (enableCalendarScrolling ex_rendered_cb)"
    by (rule T [THEN conjunct1])
  have b: "timers (enableCalendarScrolling ex_rendered_cb) = [(0, 500, ScrollToSelected)]"
    using T [THEN conjunct2, THEN conjunct1] by (simp add: ex_rendered_cb_fields)
  have lt: "(499::nat) < 500" by simp
  have ge: "(500::nat) \<le> 500" by simp
  have c: "fire 0 (advance 499 (enableCalendarScrolling ex_rendered_cb)) =
       (None, advance 499 (enableCalendarScrolling ex_rendered_cb))"
    using T [THEN conjunct2, THEN conjunct2, THEN conjunct2, THEN conjunct1, THEN spec, THEN mp, OF lt]
    by (simp add: ex_rendered_cb_fields)
  note R = T [THEN conjunct2, THEN conjunct2, THEN conjunct2, THEN conjunct2, THEN conjunct1,
      THEN mp, OF cr]
  note T5 = R [THEN conjunct1, THEN spec, THEN mp, OF ge]
  have d0: "fst (fire 0 (advance 500 (enableCalendarScrolling ex_rendered_cb))) = None"
    using T5 [THEN conjunct1] by (simp add: ex_rendered_cb_fields)
  have d: "effects (after_scroll_timer ex_rendered_cb 500) = [CalendarScrollToDay ''2024-05-01'' 0 False]"
    using T5 [THEN conjunct2, THEN conjunct1] by (simp add: ex_rendered_cb_fields)
  have e: "timers (after_scroll_timer ex_rendered_cb 500) = [(1, 1000, NotifyToggled True)]"
    using T5 [THEN conjunct2, THEN conjunct2] by (simp add: ex_rendered_cb_fields)
  have f: "after_notify_timer ex_rendered_cb 500 499 = advance 499 (after_scroll_timer ex_rendered_cb 500)"
    by (rule R [THEN conjunct2, THEN conjunct1, THEN spec, THEN spec, THEN mp, THEN mp, OF ge lt])
  have g: "new_effects (after_scroll_timer ex_rendered_cb 500) (after_notify_timer ex_rendered_cb 500 500)
       = [OnCalendarToggled True]"
    using R [THEN conjunct2, THEN conjunct2, THEN spec, THEN spec, THEN mp, THEN mp, OF ge ge,
        THEN conjunct1]
    by (simp add: ex_rendered_cb_fields)
  have r2: "enableCalendarScrolling ex_rendered_cb \<in> reachable ex_lib"
    using reachable.step [OF r, where ev = EnableCalendarScrolling] by simp
  note U = toggle_timers_sequence [where c = "enableCalendarScrolling ex_rendered_cb" and L = ex_lib
      and d = "RawDate ''2024-05-03''", THEN mp, OF r2,
      THEN conjunct2, THEN conjunct2, THEN conjunct2, THEN conjunct2, THEN conjunct2,
      THEN conjunct2, THEN conjunct2, THEN conjunct2, THEN conjunct1, THEN mp, OF a]
  have ge2: "(1000::nat) \<le> 1000" by simp
  have h: "timers (snd (chooseDay ex_lib (RawDate ''2024-05-03'') (enableCalendarScrolling ex_rendered_cb)))
       = [(0, 500, ScrollToSelected), (1, 1000, NotifyToggled False)]"
    using U [THEN conjunct1] by (simp add: enableCalendarScrolling_fields ex_rendered_cb_fields)
  have i: "new_effects (snd (chooseDay ex_lib (RawDate ''2024-05-03'') (enableCalendarScrolling ex_rendered_cb)))
        (after_choose_timer ex_lib (RawDate ''2024-05-03'') (enableCalendarScrolling ex_rendered_cb) 1000)
       = [OnCalendarToggled False]"
    using U [THEN conjunct2, THEN conjunct2, THEN spec, THEN mp, OF ge2]
    by (simp add: enableCalendarScrolling_fields ex_rendered_cb_fields)
  have j: "timers (snd (chooseDay ex_lib (RawDate ''2024-05-03'') ex_rendered_cb)) = []"
    using T [THEN conjunct2, THEN conjunct2, THEN conjunct2, THEN conjunct2, THEN conjunct2,
        THEN conjunct2, THEN conjunct2, THEN conjunct2, THEN conjunct2, THEN conjunct1, THEN mp,
        OF ex_rendered_cb_fields(6)]
    by (simp add: ex_rendered_cb_fields)
  from r cr a b c d0 d e f g r2 h i j show ?thesis
    by (intro conjI)
qed

text \<open>
  The claim that the calendar is scrolled 500 ms after \<^verbatim>\<open>enableCalendarScrolling\<close> and
  \<^verbatim>\<open>onCalendarToggled(true)\<close> called 500 ms later, as stated for every call, fails when
  the host takes the component away in between: \<^verbatim>\<open>componentWillUnmount\<close> cancels no
  timer and the host clears the refs, so the timer fires, \<^verbatim>\<open>this.calendar.scrollToDay\<close>
  raises a \<^verbatim>\<open>TypeError\<close>, nothing is scrolled, no second timer is scheduled and the
  callback, though provided, is never called.
\<close>

theorem expand_timer_after_removal_counterexample:
  "ex_removed_cb \<in> reachable ex_lib
   \<and> onCalendarToggled (props ex_removed_cb)
   \<and> calendarScrollable ex_removed_cb
   \<and> timers ex_removed_cb = [(0, 500, ScrollToSelected)]
   \<and> now ex_removed_cb = 500
   \<and> fst (fire 0 ex_removed_cb) = Some TypeError
   \<and> effects (snd (fire 0 ex_removed_cb)) = []
   \<and> timers (snd (fire 0 ex_removed_cb)) = []"
  by (simp add: ex_removed_reachable) (simp add: fire_def ex_removed_defs)

text \<open>
  C3 (as the code has it). Optional callbacks are guarded: an absent callback is never
  invoked, the other effects of the operation are the same, and whether an operation
  raises never depends on the props. An operation raises nothing when what it needs
  itself is there. \<^verbatim>\<open>chooseDay\<close> on an argument that \<^verbatim>\<open>parseDate\<close> accepts, with the scroll
  pad ref set, compacts the calendar, selects the day, positions the scroll pad, and
  calls \<^verbatim>\<open>loadItemsForMonth\<close> and \<^verbatim>\<open>onDayPress\<close> exactly when they are provided. The
  deferred callback of \<^verbatim>\<open>onVisibleMonthsChange\<close> calls \<^verbatim>\<open>loadItemsForMonth\<close> exactly when
  it is provided and the component mounted, and changes nothing otherwise;
  \<^verbatim>\<open>loadReservations\<close> sets \<^verbatim>\<open>firstResevationLoad\<close> and calls it exactly when provided. The
  outer deferred callback of \<^verbatim>\<open>enableCalendarScrolling\<close>, with the calendar ref set,
  scrolls the calendar and schedules the inner one whatever the props are; the inner one
  calls \<^verbatim>\<open>onCalendarToggled\<close> exactly when it is provided and changes nothing otherwise.
\<close>

theorem absent_callbacks_not_invoked:
  "(parseDate L d = Some dy \<longrightarrow> scrollPadRef c \<longrightarrow>
        fst (chooseDay L d c) = None
      \<and> \<not> calendarScrollable (snd (chooseDay L d c))
      \<and> selectedDay (snd (chooseDay L d c)) = dy
      \<and> new_effects c (snd (chooseDay L d c)) =
          [ScrollPadTo (initialScrollPadPosition c) False]
          @ (if loadItemsForMonth (props c) then [LoadItemsForMonth (DataOf dy)] else [])
          @ (if onDayPress (props c) then [OnDayPress dy] else []))
   \<and> (parseDate L d = Some dy \<longrightarrow> scrollPadRef c \<longrightarrow>
        \<not> loadItemsForMonth (props c) \<longrightarrow> \<not> onDayPress (props c) \<longrightarrow>
        new_effects c (snd (chooseDay L d c)) = [ScrollPadTo (initialScrollPadPosition c) False])
   \<and> run_action (LoadMonth m) c =
        (None, if loadItemsForMonth (props c) \<and> isMounted c
               then emit (LoadItemsForMonth (FirstVisible m)) c else c)
   \<and> (\<not> loadItemsForMonth (props c) \<longrightarrow> run_action (LoadMonth m) c = (None, c))
   \<and> loadReservations h p c =
        (if (case items p of None \<Rightarrow> True | Some a \<Rightarrow> object_keys h (JRef a) = [])
            \<and> \<not> firstResevationLoad c
         then (if loadItemsForMonth (props c)
               then emit (LoadItemsForMonth (DataOf (selectedDay c))) (c\<lparr>firstResevationLoad := True\<rparr>)
               else c\<lparr>firstResevationLoad := True\<rparr>)
         else c)
   \<and> (calendarRef c \<longrightarrow>
        run_action ScrollToSelected c =
          (None, c\<lparr>timers := timers c @ [(nextTimer c, now c + 500, NotifyToggled True)],
                     nextTimer := Suc (nextTimer c),
                     effects := effects c @ [CalendarScrollToDay (selectedDay c) 0 False]\<rparr>))
   \<and> run_action (NotifyToggled b) c =
        (None, if onCalendarToggled (props c) then emit (OnCalendarToggled b) c else c)
   \<and> (\<not> onCalendarToggled (props c) \<longrightarrow> run_action (NotifyToggled b) c = (None, c))
   \<and> (\<forall>i due. c \<in> reachable L \<longrightarrow> \<not> loadItemsForMonth (props c) \<longrightarrow>
          (i, due, LoadMonth m) \<in> set (timers c) \<longrightarrow> due \<le> now c \<longrightarrow>
          fire i c = (None, c\<lparr>timers := filter (\<lambda>p. fst p \<noteq> i) (timers c)\<rparr>))
   \<and> (\<forall>i due. c \<in> reachable L \<longrightarrow> \<not> onCalendarToggled (props c) \<longrightarrow>
          (i, due, NotifyToggled b) \<in> set (timers c) \<longrightarrow> due \<le> now c \<longrightarrow>
          fire i c = (None, c\<lparr>timers := filter (\<lambda>p. fst p \<noteq> i) (timers c)\<rparr>))
   \<and> (\<forall>i due. c \<in> reachable L \<longrightarrow> calendarRef c \<longrightarrow>
          (i, due, ScrollToSelected) \<in> set (timers c) \<longrightarrow> due \<le> now c \<longrightarrow>
          fire i c =
            (None, c\<lparr>timers := filter (\<lambda>p. fst p \<noteq> i) (timers c)
                              @ [(nextTimer c, now c + 500, NotifyToggled True)],
                       nextTimer := Suc (nextTimer c),
                       effects := effects c @ [CalendarScrollToDay (selectedDay c) 0 False]\<rparr>))
   \<and> (\<forall>q. fst (chooseDay L d (c\<lparr>props := q\<rparr>)) = fst (chooseDay L d c))
   \<and> (\<forall>q a. fst (run_action a (c\<lparr>props := q\<rparr>)) = fst (run_action a c))
   \<and> (\<not> loadItemsForMonth (props c) \<longrightarrow> \<not> onDayPress (props c) \<longrightarrow>
        list_all (\<lambda>e. \<not> is_callback e) (new_effects c (snd (chooseDay L d c))))"
proof -
  have A: "parseDate L d = Some dy \<longrightarrow> scrollPadRef c \<longrightarrow>
        fst (chooseDay L d c) = None
      \<and> \<not> calendarScrollable (snd (chooseDay L d c))
      \<and> selectedDay (snd (chooseDay L d c)) = dy
      \<and> new_effects c (snd (chooseDay L d c)) =
          [ScrollPadTo (initialScrollPadPosition c) False]
          @ (if loadItemsForMonth (props c) then [LoadItemsForMonth (DataOf dy)] else [])
          @ (if onDayPress (props c) then [OnDayPress dy] else [])"
    by (simp add: chooseDay_parsed chooseDay_new_effects chooseDay_error)
  have B: "parseDate L d = Some dy \<longrightarrow> scrollPadRef c \<longrightarrow>
        \<not> loadItemsForMonth (props c) \<longrightarrow> \<not> onDayPress (props c) \<longrightarrow>
        new_effects c (snd (chooseDay L d c)) = [ScrollPadTo (initialScrollPadPosition c) False]"
    by (simp add: chooseDay_new_effects)
  have C: "run_action (LoadMonth m) c =
        (None, if loadItemsForMonth (props c) \<and> isMounted c
               then emit (LoadItemsForMonth (FirstVisible m)) c else c)"
    by simp
  have C': "\<not> loadItemsForMonth (props c) \<longrightarrow> run_action (LoadMonth m) c = (None, c)"
    by simp
  have D: "loadReservations h p c =
        (if (case items p of None \<Rightarrow> True | Some a \<Rightarrow> object_keys h (JRef a) = [])
            \<and> \<not> firstResevationLoad c
         then (if loadItemsForMonth (props c)
               then emit (LoadItemsForMonth (DataOf (selectedDay c))) (c\<lparr>firstResevationLoad := True\<rparr>)
               else c\<lparr>firstResevationLoad := True\<rparr>)
         else c)"
    by (simp add: loadReservations_def Let_def)
  have E: "calendarRef c \<longrightarrow>
        run_action ScrollToSelected c =
          (None, c\<lparr>timers := timers c @ [(nextTimer c, now c + 500, NotifyToggled True)],
                     nextTimer := Suc (nextTimer c),
                     effects := effects c @ [CalendarScrollToDay (selectedDay c) 0 False]\<rparr>)"
    by (simp add: setTimeout_def emit_def)
  have F: "run_action (NotifyToggled b) c =
        (None, if onCalendarToggled (props c) then emit (OnCalendarToggled b) c else c)"
    by simp
  have F': "\<not> onCalendarToggled (props c) \<longrightarrow> run_action (NotifyToggled b) c = (None, c)"
    by simp
  have G: "\<forall>i due. c \<in> reachable L \<longrightarrow> \<not> loadItemsForMonth (props c) \<longrightarrow>
          (i, due, LoadMonth m) \<in> set (timers c) \<longrightarrow> due \<le> now c \<longrightarrow>
          fire i c = (None, c\<lparr>timers := filter (\<lambda>p. fst p \<noteq> i) (timers c)\<rparr>)"
    using fire_absent(1) [OF reachable_timers_ok, where a = "LoadMonth m" and m = m] by blast
  have H: "\<forall>i due. c \<in> reachable L \<longrightarrow> \<not> onCalendarToggled (props c) \<longrightarrow>
          (i, due, NotifyToggled b) \<in> set (timers c) \<longrightarrow> due \<le> now c \<longrightarrow>
          fire i c = (None, c\<lparr>timers := filter (\<lambda>p. fst p \<noteq> i) (timers c)\<rparr>)"
    using fire_absent(2) [OF reachable_timers_ok, where a = "NotifyToggled b" and b = b] by blast
  have I: "\<forall>i due. c \<in> reachable L \<longrightarrow> calendarRef c \<longrightarrow>
          (i, due, ScrollToSelected) \<in> set (timers c) \<longrightarrow> due \<le> now c \<longrightarrow>
          fire i c =
            (None, c\<lparr>timers := filter (\<lambda>p. fst p \<noteq> i) (timers c)
                              @ [(nextTimer c, now c + 500, NotifyToggled True)],
                       nextTimer := Suc (nextTimer c),
                       effects := effects c @ [CalendarScrollToDay (selectedDay c) 0 False]\<rparr>)"
    using fire_absent(3) [OF reachable_timers_ok, where a = ScrollToSelected] by blast
  have J: "\<forall>q. fst (chooseDay L d (c\<lparr>props := q\<rparr>)) = fst (chooseDay L d c)"
    by (simp add: chooseDay_error)
  have K: "\<forall>q a. fst (run_action a (c\<lparr>props := q\<rparr>)) = fst (run_action a c)"
  proof (intro allI)
    fix q a
    show "fst (run_action a (c\<lparr>props := q\<rparr>)) = fst (run_action a c)"
      by (cases a) simp_all
  qed
  have M: "\<not> loadItemsForMonth (props c) \<longrightarrow> \<not> onDayPress (props c) \<longrightarrow>
        list_all (\<lambda>e. \<not> is_callback e) (new_effects c (snd (chooseDay L d c)))"
    by (simp add: chooseDay_new_effects split: option.split)
  from A B C C' D E F F' G H I J K M show ?thesis
    by (intro conjI)
qed

theorem absent_callbacks_not_invoked_witness:
  "parseDate ex_lib (RawDate ''2024-05-03'') = Some ''2024-05-03''
   \<and> scrollPadRef ex_rendered \<and> calendarRef ex_rendered
   \<and> \<not> loadItemsForMonth (props ex_rendered) \<and> \<not> onDayPress (props ex_rendered)
   \<and> \<not> onCalendarToggled (props ex_rendered)
   \<and> fst (chooseDay ex_lib (RawDate ''2024-05-03'') ex_rendered) = None
   \<and> selectedDay (snd (chooseDay ex_lib (RawDate ''2024-05-03'') ex_rendered)) = ''2024-05-03''
   \<and> new_effects ex_rendered (snd (chooseDay ex_lib (RawDate ''2024-05-03'') ex_rendered))
       = [ScrollPadTo 606 False]
   \<and> new_effects ex_rendered_cb (snd (chooseDay ex_lib (RawDate ''2024-05-03'') ex_rendered_cb))
       = [ScrollPadTo 606 False, LoadItemsForMonth (DataOf ''2024-05-03''), OnDayPress ''2024-05-03'']
   \<and> run_action (LoadMonth (Some ''2024-05'')) ex_rendered = (None, ex_rendered)
   \<and> run_action (NotifyToggled True) ex_rendered = (None, ex_rendered)
   \<and> fst (run_action ScrollToSelected ex_rendered) = None
   \<and> effects (snd (run_action ScrollToSelected ex_rendered)) = [CalendarScrollToDay ''2024-05-01'' 0 False]
   \<and> timers (snd (run_action ScrollToSelected ex_rendered)) = [(0, 500, NotifyToggled True)]
   \<and> loadReservations [[]] (ex_props\<lparr>items := None\<rparr>) ex_rendered
       = ex_rendered\<lparr>firstResevationLoad := True\<rparr>"
proof -
  have p: "parseDate ex_lib (RawDate ''2024-05-03'') = Some ''2024-05-03''"
    by (simp add: ex_lib_def)
  note sp = ex_rendered_fields(11)
  note cr = ex_rendered_fields(12)
  note n = ex_rendered_fields(8) ex_rendered_fields(9) ex_rendered_fields(7)
  note T = absent_callbacks_not_invoked [where c = ex_rendered and L = ex_lib
      and d = "RawDate ''2024-05-03''" and dy = "''2024-05-03''" and m = "Some ''2024-05''"
      and b = True and h = "[[]]" and p = "ex_props\<lparr>items := None\<rparr>"]
  note A = T [THEN conjunct1, THEN mp, THEN mp, OF p sp]
  have a: "fst (chooseDay ex_lib (RawDate ''2024-05-03'') ex_rendered) = None"
    by (rule A [THEN conjunct1])
  have b: "selectedDay (snd (chooseDay ex_lib (RawDate ''2024-05-03'') ex_rendered)) = ''2024-05-03''"
    by (rule A [THEN conjunct2, THEN conjunct2, THEN conjunct1])
  have c: "new_effects ex_rendered (snd (chooseDay ex_lib (RawDate ''2024-05-03'') ex_rendered))
       = [ScrollPadTo 606 False]"
    using T [THEN conjunct2, THEN conjunct1, THEN mp, THEN mp, THEN mp, THEN mp, OF p sp n(1) n(2)]
    by (simp add: initialScrollPadPosition_def HEADER_HEIGHT_def ex_rendered_fields)
  have d: "new_effects ex_rendered_cb (snd (chooseDay ex_lib (RawDate ''2024-05-03'') ex_rendered_cb))
       = [ScrollPadTo 606 False, LoadItemsForMonth (DataOf ''2024-05-03''), OnDayPress ''2024-05-03'']"
    using absent_callbacks_not_invoked [where c = ex_rendered_cb and L = ex_lib
      and d = "RawDate ''2024-05-03''" and dy = "''2024-05-03''", THEN conjunct1, THEN mp, THEN mp,
      OF p ex_rendered_cb_fields(11), THEN conjunct2, THEN conjunct2, THEN conjunct2]
    by (simp add: initialScrollPadPosition_def HEADER_HEIGHT_def ex_rendered_cb_fields)
  have e: "run_action (LoadMonth (Some ''2024-05'')) ex_rendered = (None, ex_rendered)"
    by (rule T [THEN conjunct2, THEN conjunct2, THEN conjunct2, THEN conjunct1, THEN mp, OF n(1)])
  have f: "run_action (NotifyToggled True) ex_rendered = (None, ex_rendered)"
    by (rule T [THEN conjunct2, THEN conjunct2, THEN conjunct2, THEN conjunct2, THEN conjunct2,
        THEN conjunct2, THEN conjunct2, THEN conjunct1, THEN mp, OF n(3)])
  note S = T [THEN conjunct2, THEN conjunct2, THEN conjunct2, THEN conjunct2, THEN conjunct2,
        THEN conjunct1, THEN mp, OF cr]
  have s1: "fst (run_action ScrollToSelected ex_rendered) = None"
    unfolding S by simp
  have s2: "effects (snd (run_action ScrollToSelected ex_rendered)) = [CalendarScrollToDay ''2024-05-01'' 0 False]"
    unfolding S by (simp add: ex_rendered_fields)
  have s3: "timers (snd (run_action ScrollToSelected ex_rendered)) = [(0, 500, NotifyToggled True)]"
    unfolding S by (simp add: ex_rendered_fields)
  have g: "loadReservations [[]] (ex_props\<lparr>items := None\<rparr>) ex_rendered
       = ex_rendered\<lparr>firstResevationLoad := True\<rparr>"
    using T [THEN conjunct2, THEN conjunct2, THEN conjunct2, THEN conjunct2, THEN conjunct1] n(1)
    by (simp add: ex_rendered_defs)
  from p sp cr n a b c d e f s1 s2 s3 g show ?thesis
    by (intro conjI)
qed

text \<open>
  The claim that, with the callback absent, every such operation completes without
  raising, as stated for every call, fails where the operation lacks what it needs
  itself. The component here has no callbacks; it was expanded and then taken away by
  the host. 500 ms after the call the outer deferred callback of
  \<^verbatim>\<open>enableCalendarScrolling\<close> raises at \<^verbatim>\<open>this.calendar.scrollToDay\<close>; \<^verbatim>\<open>chooseDay\<close> on a
  good day raises at \<^verbatim>\<open>this.scrollPad._component\<close>, after the state is set and before
  the callbacks are looked at; and on the rendered component \<^verbatim>\<open>chooseDay\<close> raises at
  \<^verbatim>\<open>day.clone()\<close> when \<^verbatim>\<open>parseDate\<close> returns nothing.
\<close>

theorem absent_callback_operations_raise_counterexample:
  "\<not> onCalendarToggled (props ex_removed) \<and> \<not> loadItemsForMonth (props ex_removed)
   \<and> \<not> onDayPress (props ex_removed)
   \<and> ex_removed \<in> reachable ex_lib
   \<and> timers ex_removed = [(0, 500, ScrollToSelected)]
   \<and> now ex_removed = 500
   \<and> fst (fire 0 ex_removed) = Some TypeError
   \<and> parseDate ex_lib (RawDate ''2024-05-03'') = Some ''2024-05-03''
   \<and> fst (chooseDay ex_lib (RawDate ''2024-05-03'') ex_removed) = Some TypeError
   \<and> parseDate ex_lib NoDate = None
   \<and> fst (chooseDay ex_lib NoDate ex_rendered) = Some TypeError"
  by (simp add: ex_removed_reachable)
     (simp add: fire_def chooseDay_def setScrollPadPosition_def ex_removed_defs)

text \<open>
  C2. The view state is the boolean \<^verbatim>\<open>calendarScrollable\<close>: false (compact) after
  construction, set by \<^verbatim>\<open>enableCalendarScrolling\<close> and so by \<^verbatim>\<open>expandCalendar\<close>, cleared
  by \<^verbatim>\<open>chooseDay\<close> and \<^verbatim>\<open>compactCalendar\<close> when the day parses (a \<^verbatim>\<open>chooseDay\<close>
  that raises on its argument leaves it as it is), and left as it is by every other
  event. In every reachable state dragging is allowed exactly when it is false, and the
  scroll pad sits at 94 then and at 0 otherwise.
\<close>

theorem view_state_machine:
  "\<not> calendarScrollable (constructor L p windowHeight windowWidth todaySel todayTop)
   \<and> expandCalendar c = setScrollPadPosition 0 True (enableCalendarScrolling c)
   \<and> calendarScrollable (enableCalendarScrolling c)
   \<and> calendarScrollable (snd (expandCalendar c))
   \<and> (parseDate L d = Some dy \<longrightarrow> \<not> calendarScrollable (snd (chooseDay L d c)))
   \<and> (parseDate L (XDateObj (selectedDay c)) = Some dy \<longrightarrow> \<not> calendarScrollable (snd (compactCalendar L c)))
   \<and> (\<forall>ev. ev \<noteq> ExpandCalendar \<longrightarrow> ev \<noteq> EnableCalendarScrolling \<longrightarrow> ev \<noteq> CompactCalendar \<longrightarrow>
         (\<forall>d. ev \<noteq> ChooseDay d) \<longrightarrow>
         calendarScrollable (apply_event L ev c) = calendarScrollable c)
   \<and> (c \<in> reachable L \<longrightarrow>
         (calendarScrollable c = True \<or> calendarScrollable c = False)
       \<and> shouldAllowDragging c = (\<not> calendarScrollable c)
       \<and> scrollPadPosition c = (if calendarScrollable c then 0 else 94))
   \<and> (parseDate L d = None \<longrightarrow>
         calendarScrollable (snd (chooseDay L d c)) = calendarScrollable c)"
proof -
  have A: "\<not> calendarScrollable (constructor L p windowHeight windowWidth todaySel todayTop)"
    by (simp add: constructor_def)
  have B: "expandCalendar c = setScrollPadPosition 0 True (enableCalendarScrolling c)"
    by (simp add: expandCalendar_def)
  have C: "calendarScrollable (enableCalendarScrolling c)"
    by (simp add: enableCalendarScrolling_def setTimeout_def)
  have D: "calendarScrollable (snd (expandCalendar c))"
    by (simp add: expandCalendar_def enableCalendarScrolling_def setTimeout_def
          setScrollPadPosition_def emit_def)
  have E: "parseDate L d = Some dy \<longrightarrow> \<not> calendarScrollable (snd (chooseDay L d c))"
    by (simp add: chooseDay_parsed)
  have F: "parseDate L (XDateObj (selectedDay c)) = Some dy \<longrightarrow>
           \<not> calendarScrollable (snd (compactCalendar L c))"
    by (simp add: compactCalendar_def chooseDay_parsed)
  have G: "\<forall>ev. ev \<noteq> ExpandCalendar \<longrightarrow> ev \<noteq> EnableCalendarScrolling \<longrightarrow> ev \<noteq> CompactCalendar \<longrightarrow>
         (\<forall>d. ev \<noteq> ChooseDay d) \<longrightarrow>
         calendarScrollable (apply_event L ev c) = calendarScrollable c"
    using unrelated_event_keeps_view_state [where L = L and c = c] by blast
  have H: "c \<in> reachable L \<longrightarrow>
         (calendarScrollable c = True \<or> calendarScrollable c = False)
       \<and> shouldAllowDragging c = (\<not> calendarScrollable c)
       \<and> scrollPadPosition c = (if calendarScrollable c then 0 else 94)"
    by (simp add: shouldAllowDragging_def scrollPadPosition_def HEADER_HEIGHT_def)
  have I: "parseDate L d = None \<longrightarrow>
         calendarScrollable (snd (chooseDay L d c)) = calendarScrollable c"
    by (simp add: chooseDay_failed)
  from A B C D E F G H I show ?thesis
    by (intro conjI)
qed

theorem view_state_machine_witness:
  "\<not> calendarScrollable ex_comp
   \<and> calendarScrollable (snd (expandCalendar ex_rendered))
   \<and> parseDate ex_lib (RawDate ''2024-05-03'') = Some ''2024-05-03''
   \<and> \<not> calendarScrollable (snd (chooseDay ex_lib (RawDate ''2024-05-03'') (snd (expandCalendar ex_rendered))))
   \<and> parseDate ex_lib (XDateObj (selectedDay (snd (expandCalendar ex_rendered)))) = Some ''2024-05-01''
   \<and> \<not> calendarScrollable (snd (compactCalendar ex_lib (snd (expandCalendar ex_rendered))))
   \<and> calendarScrollable (apply_event ex_lib (Layout 500 300) (snd (expandCalendar ex_rendered)))
   \<and> snd (expandCalendar ex_rendered) \<in> reachable ex_lib
   \<and> \<not> shouldAllowDragging (snd (expandCalendar ex_rendered))
   \<and> scrollPadPosition (snd (expandCalendar ex_rendered)) = 0
   \<and> ex_rendered \<in> reachable ex_lib
   \<and> shouldAllowDragging ex_rendered
   \<and> scrollPadPosition ex_rendered = 94"
proof -
  note T = view_state_machine [where c = "snd (expandCalendar ex_rendered)" and L = ex_lib
      and d = "RawDate ''2024-05-03''"]
  have a: "\<not> calendarScrollable ex_comp"
    using view_state_machine [where L = ex_lib and p = ex_props and windowHeight = 700
        and windowWidth = 400 and todaySel = "''2024-05-09''" and todayTop = "''2024-05-09''",
        THEN conjunct1]
    by (simp add: ex_comp_def)
  have b: "calendarScrollable (snd (expandCalendar ex_rendered))"
    by (rule view_state_machine [where c = ex_rendered,
        THEN conjunct2, THEN conjunct2, THEN conjunct2, THEN conjunct1])
  have p: "parseDate ex_lib (RawDate ''2024-05-03'') = Some ''2024-05-03''"
    by (simp add: ex_lib_def)
  have c: "\<not> calendarScrollable (snd (chooseDay ex_lib (RawDate ''2024-05-03'') (snd (expandCalendar ex_rendered))))"
    by (rule T [THEN conjunct2, THEN conjunct2, THEN conjunct2, THEN conjunct2, THEN conjunct1, THEN mp, OF p])
  have q: "parseDate ex_lib (XDateObj (selectedDay (snd (expandCalendar ex_rendered)))) = Some ''2024-05-01''"
    by (simp add: expandCalendar_def enableCalendarScrolling_def setTimeout_def
          setScrollPadPosition_def emit_def ex_rendered_defs)
  have d: "\<not> calendarScrollable (snd (compactCalendar ex_lib (snd (expandCalendar ex_rendered))))"
    by (rule T [THEN conjunct2, THEN conjunct2, THEN conjunct2, THEN conjunct2, THEN conjunct2,
        THEN conjunct1, THEN mp, OF q])
  have e: "calendarScrollable (apply_event ex_lib (Layout 500 300) (snd (expandCalendar ex_rendered)))"
    using T [THEN conjunct2, THEN conjunct2, THEN conjunct2, THEN conjunct2, THEN conjunct2,
        THEN conjunct2, THEN conjunct1, THEN spec, where x = "Layout 500 300"] b
    by simp
  have r: "snd (expandCalendar ex_rendered) \<in> reachable ex_lib"
    using reachable.step [OF ex_rendered_reachable(1), where ev = ExpandCalendar] by simp
  note H = T [THEN conjunct2, THEN conjunct2, THEN conjunct2, THEN conjunct2, THEN conjunct2,
        THEN conjunct2, THEN conjunct2, THEN conjunct1, THEN mp, OF r]
  have f: "\<not> shouldAllowDragging (snd (expandCalendar ex_rendered))"
    using H b by simp
  have g: "scrollPadPosition (snd (expandCalendar ex_rendered)) = 0"
    using H b by simp
  note H0 = view_state_machine [where c = ex_rendered and L = ex_lib,
        THEN conjunct2, THEN conjunct2, THEN conjunct2, THEN conjunct2, THEN conjunct2,
        THEN conjunct2, THEN conjunct2, THEN conjunct1, THEN mp, OF ex_rendered_reachable(1)]
  have h: "shouldAllowDragging ex_rendered"
    using H0 ex_rendered_fields(6) by simp
  have i: "scrollPadPosition ex_rendered = 94"
    using H0 ex_rendered_fields(6) by simp
  from a b p c q d e r f g ex_rendered_reachable(1) h i show ?thesis
    by (intro conjI)
qed

end
